theory Spec2Isabelle
  imports Main "HOL-Library.Word" "HOL-Library.Multiset"
begin

section \<open>The generic CRUD controller (core/crud/controller\_crud.go)\<close>

subsection \<open>Identifiers, errors and outcomes\<close>

text \<open>
  The controller is generic in the entity type \<open>T\<close> and in the identifier type \<open>TID\<close>.
  An instantiation fixes \<open>TID\<close>; the two representations the controller decodes are the
  unsigned 64-bit integer and the UUID (a 16-byte array). A value boxed into \<open>any\<close>
  carries its dynamic type, which a type assertion inspects.
\<close>

datatype TID = TID_uint64 | TID_UUID

datatype id_value = Uint64 "64 word" | UUID "8 word list"

fun dynamic_type :: "id_value \<Rightarrow> TID" where
  "dynamic_type (Uint64 n) = TID_uint64"
| "dynamic_type (UUID u) = TID_UUID"

text \<open>\<^verbatim>\<open>var idTID TID\<close>: the zero value of the instantiated identifier type.\<close>

fun zero_value :: "TID \<Rightarrow> id_value" where
  "zero_value TID_uint64 = Uint64 0"
| "zero_value TID_UUID = UUID (replicate 16 0)"

text \<open>\<^verbatim>\<open>_, ok := any(v).(TID)\<close>: the comma-ok form reports whether the dynamic type of
  \<open>v\<close> is \<open>TID\<close> and never panics.\<close>

definition type_assert_ok :: "TID \<Rightarrow> id_value \<Rightarrow> bool" where
  "type_assert_ok tid v = (dynamic_type v = tid)"

text \<open>\<^verbatim>\<open>any(v).(TID)\<close>: the single-value form; \<open>None\<close> is the run-time panic raised when the
  dynamic type of \<open>v\<close> is not \<open>TID\<close>.\<close>

definition type_assert :: "TID \<Rightarrow> id_value \<Rightarrow> id_value option" where
  "type_assert tid v = (if dynamic_type v = tid then Some v else None)"

datatype ErrorCode = ErrNotFound | ErrInvalidParam

text \<open>\<open>AppError\<close> is \<^verbatim>\<open>errors.New(code, message)\<close>; \<open>CollaboratorError\<close> is an error
  value produced by the binding layer, the validator or the repository, which the controller
  passes on as it is.\<close>

datatype error = AppError ErrorCode string | CollaboratorError string

text \<open>What a handler does: it returns a value, returns an error, or panics.\<close>

datatype 'r outcome = Return 'r | Fail error | Panic

subsection \<open>The library parsers the controller calls\<close>

text \<open>\<^verbatim>\<open>strconv.ParseUint(s, 10, 64)\<close>: a non-empty string of decimal digits whose value
  fits 64 bits; no sign, no underscore, no blank.\<close>

definition is_digit :: "char \<Rightarrow> bool" where
  "is_digit c = (48 \<le> (of_char c :: nat) \<and> (of_char c :: nat) \<le> 57)"

definition digits_value :: "string \<Rightarrow> nat" where
  "digits_value s = foldl (\<lambda>n c. 10 * n + ((of_char c :: nat) - 48)) 0 s"

definition ParseUint :: "string \<Rightarrow> 64 word option" where
  "ParseUint s =
     (if s = [] then None
      else if list_all is_digit s
      then (if digits_value s < 2 ^ 64 then Some (word_of_nat (digits_value s)) else None)
      else None)"

text \<open>\<^verbatim>\<open>uuid.Parse(s)\<close> of github.com/google/uuid: the 36-byte canonical form, the same
  behind \<^verbatim>\<open>urn:uuid:\<close> (45 bytes) or inside one more byte on each side (38 bytes, of
  which only the middle 36 are examined), and the 32-byte raw hexadecimal form. \<open>None\<close>
  is the error.\<close>

definition hexval :: "char \<Rightarrow> nat option" where
  "hexval c =
     (let k = (of_char c :: nat) in
      if 48 \<le> k \<and> k \<le> 57 then Some (k - 48)
      else if 97 \<le> k \<and> k \<le> 102 then Some (k - 87)
      else if 65 \<le> k \<and> k \<le> 70 then Some (k - 55)
      else None)"

definition xtob :: "char \<Rightarrow> char \<Rightarrow> 8 word option" where
  "xtob x1 x2 =
     (case hexval x1 of
        None \<Rightarrow> None
      | Some b1 \<Rightarrow> (case hexval x2 of None \<Rightarrow> None | Some b2 \<Rightarrow> Some (word_of_nat (16 * b1 + b2))))"

fun xtobs :: "string \<Rightarrow> nat list \<Rightarrow> 8 word list option" where
  "xtobs s [] = Some []"
| "xtobs s (x # xs) =
     (case xtob (s ! x) (s ! Suc x) of
        None \<Rightarrow> None
      | Some v \<Rightarrow> (case xtobs s xs of None \<Rightarrow> None | Some vs \<Rightarrow> Some (v # vs)))"

definition lower :: "char \<Rightarrow> char" where
  "lower c =
     (let k = (of_char c :: nat) in if 65 \<le> k \<and> k \<le> 90 then char_of (k + 32) else c)"

definition uuid_Parse :: "string \<Rightarrow> 8 word list option" where
  "uuid_Parse s0 =
     (if length s0 = 32 then xtobs s0 (map (\<lambda>i. 2 * i) [0..<16])
      else
        (case (if length s0 = 36 then Some s0
               else if length s0 = 36 + 9
               then (if map lower (take 9 s0) = ''urn:uuid:'' then Some (drop 9 s0) else None)
               else if length s0 = 36 + 2 then Some (drop 1 s0)
               else None) of
           None \<Rightarrow> None
         | Some s \<Rightarrow>
             if s ! 8 = CHR ''-'' \<and> s ! 13 = CHR ''-'' \<and> s ! 18 = CHR ''-'' \<and> s ! 23 = CHR ''-''
             then xtobs s [0, 2, 4, 6, 9, 11, 14, 16, 19, 21, 24, 26, 28, 30, 32, 34]
             else None))"

subsection \<open>Entities, the request context and the collaborators\<close>

text \<open>Modelled from the spec: the entity interface (\<^verbatim>\<open>ICrudEntity\<close>, not among the sources)
  gives every entity an identifier that \<^verbatim>\<open>SetID\<close> stores; the rest of the entity is
  the type parameter \<open>'a\<close>.\<close>

record 'a Entity =
  ID :: id_value
  Fields :: 'a

definition SetID :: "id_value \<Rightarrow> 'a Entity \<Rightarrow> 'a Entity" where
  "SetID i e = e\<lparr>ID := i\<rparr>"

text \<open>The \<^verbatim>\<open>gin.Context\<close> of one request, by what its methods answer: \<open>Param\<close> is
  \<^verbatim>\<open>ctx.Param\<close> (the empty string for an absent parameter), and the three \<open>Bind\<close>
  fields are \<^verbatim>\<open>ctx.ShouldBindJSON\<close> into a \<open>T\<close>, a \<open>[]T\<close> and a \<open>[]TID\<close>: the
  error, or the decoded value.\<close>

record 'a Context =
  Param :: "string \<Rightarrow> string"
  BindEntity :: "error + 'a Entity"
  BindEntities :: "error + 'a Entity list"
  BindIDs :: "error + id_value list"

text \<open>The repository contract \<^verbatim>\<open>IRepository[T, TID]\<close> over a store \<open>'s\<close>. A method that
  gets a pointer or a slice may change what it points to, so it returns the entity (or
  entities) as they are after the call, next to its error.\<close>

record ('a, 's) IRepository =
  Repository_Create :: "'a Entity \<Rightarrow> 's \<Rightarrow> (error option \<times> 'a Entity) \<times> 's"
  Repository_FindById :: "id_value \<Rightarrow> 's \<Rightarrow> (error option \<times> 'a Entity option) \<times> 's"
  Repository_Update :: "'a Entity \<Rightarrow> 's \<Rightarrow> (error option \<times> 'a Entity) \<times> 's"
  Repository_DeleteById :: "id_value \<Rightarrow> 's \<Rightarrow> error option \<times> 's"
  Repository_BatchCreate :: "'a Entity list \<Rightarrow> 's \<Rightarrow> (error option \<times> 'a Entity list) \<times> 's"
  Repository_BatchUpdate :: "'a Entity list \<Rightarrow> 's \<Rightarrow> (error option \<times> 'a Entity list) \<times> 's"
  Repository_BatchDelete :: "id_value list \<Rightarrow> 's \<Rightarrow> error option \<times> 's"

text \<open>Modelled from the spec: \<^verbatim>\<open>Repository.Transaction\<close> (the repository's implementation
  is not among the sources) runs the function on a handle scoped to one atomic unit of
  work, commits only if the function returns no error and rolls back otherwise.\<close>

definition Transaction :: "('s \<Rightarrow> (error option \<times> 'r) \<times> 's) \<Rightarrow> 's \<Rightarrow> (error option \<times> 'r) \<times> 's" where
  "Transaction fn s =
     (case fn s of
        ((None, r), s') \<Rightarrow> ((None, r), s')
      | ((Some err, r), s') \<Rightarrow> ((Some err, r), s))"

text \<open>\<^verbatim>\<open>validator.Validate\<close> is a parameter \<open>validate\<close> of the handlers. The first error of
  the loop \<^verbatim>\<open>for _, entity := range entities\<close> that validates each entity:\<close>

fun validate_each :: "('a Entity \<Rightarrow> error option) \<Rightarrow> 'a Entity list \<Rightarrow> error option" where
  "validate_each validate [] = None"
| "validate_each validate (entity # entities) =
     (case validate entity of
        Some err \<Rightarrow> Some err
      | None \<Rightarrow> validate_each validate entities)"

text \<open>\<^verbatim>\<open>c.Responser.Success(x)\<close> wraps what the handler answers with. The options that
  \<^verbatim>\<open>Delete\<close> passes to \<^verbatim>\<open>DeleteById\<close> are always \<^verbatim>\<open>options.NewDeleteOptions()\<close> and
  are left out of the contract above; \<^verbatim>\<open>List\<close>, whose query options are built outside
  this file, is not modelled.\<close>

datatype 'a payload = One "'a Entity" | Many "'a Entity list" | Nil

datatype 'a response = Success "'a payload"

subsection \<open>The handlers\<close>

definition Create ::
  "('a, 's) IRepository \<Rightarrow> ('a Entity \<Rightarrow> error option) \<Rightarrow> 'a Context \<Rightarrow> 's \<Rightarrow> 'a response outcome \<times> 's" where
  "Create repo validate ctx s =
     (case BindEntity ctx of
        Inl err \<Rightarrow> (Fail err, s)
      | Inr entity \<Rightarrow>
          (case validate entity of
             Some err \<Rightarrow> (Fail err, s)
           | None \<Rightarrow>
               (case Repository_Create repo entity s of
                  ((Some err, entity'), s') \<Rightarrow> (Fail err, s')
                | ((None, entity'), s') \<Rightarrow> (Return (Success (One entity')), s'))))"

text \<open>Lines 39 to 58 of \<^verbatim>\<open>GetById\<close>: the identifier decoded from the path string, or the
  way the handler ends.\<close>

definition GetById_decode :: "TID \<Rightarrow> string \<Rightarrow> 'r outcome + id_value" where
  "GetById_decode tid idParam =
     (let idTID = zero_value tid in
      case uuid_Parse idParam of
        Some idUUID \<Rightarrow>
          if type_assert_ok tid idTID
          then (case type_assert tid (UUID idUUID) of None \<Rightarrow> Inl Panic | Some v \<Rightarrow> Inr v)
          else Inl (Fail (AppError ErrInvalidParam ''invalid id parameter type''))
      | None \<Rightarrow>
          (case ParseUint idParam of
             Some idInt \<Rightarrow>
               if type_assert_ok tid idTID
               then (case type_assert tid (Uint64 idInt) of None \<Rightarrow> Inl Panic | Some v \<Rightarrow> Inr v)
               else Inl (Fail (AppError ErrInvalidParam ''invalid id parameter type''))
           | None \<Rightarrow> Inl (Fail (AppError ErrInvalidParam ''invalid id parameter''))))"

definition GetById ::
  "('a, 's) IRepository \<Rightarrow> TID \<Rightarrow> 'a Context \<Rightarrow> 's \<Rightarrow> 'a response outcome \<times> 's" where
  "GetById repo tid ctx s =
     (let idParam = Param ctx ''id'' in
      if idParam = [] then (Fail (AppError ErrNotFound ''missing id parameter''), s)
      else
        (case GetById_decode tid idParam of
           Inl out \<Rightarrow> (out, s)
         | Inr idTID \<Rightarrow>
             (case Repository_FindById repo idTID s of
                ((Some err, entity), s') \<Rightarrow> (Fail err, s')
              | ((None, None), s') \<Rightarrow> (Fail (AppError ErrNotFound ''record not found''), s')
              | ((None, Some entity), s') \<Rightarrow> (Return (Success (One entity)), s'))))"

definition Update ::
  "('a, 's) IRepository \<Rightarrow> ('a Entity \<Rightarrow> error option) \<Rightarrow> TID \<Rightarrow> 'a Context \<Rightarrow> 's
     \<Rightarrow> 'a response outcome \<times> 's" where
  "Update repo validate tid ctx s =
     (let idParam = Param ctx ''id'' in
      if idParam = [] then (Fail (AppError ErrNotFound ''missing id parameter''), s)
      else
        (case BindEntity ctx of
           Inl err \<Rightarrow> (Fail err, s)
         | Inr entity \<Rightarrow>
             (case validate entity of
                Some err \<Rightarrow> (Fail err, s)
              | None \<Rightarrow>
                  (case ParseUint idParam of
                     None \<Rightarrow> (Fail (AppError ErrNotFound ''invalid id format''), s)
                   | Some idInt \<Rightarrow>
                       (case type_assert tid (Uint64 idInt) of
                          None \<Rightarrow> (Panic, s)
                        | Some v \<Rightarrow>
                            (case Repository_Update repo (SetID v entity) s of
                               ((Some err, entity'), s') \<Rightarrow> (Fail err, s')
                             | ((None, entity'), s') \<Rightarrow> (Return (Success (One entity')), s')))))))"

definition Delete ::
  "('a, 's) IRepository \<Rightarrow> TID \<Rightarrow> 'a Context \<Rightarrow> 's \<Rightarrow> 'a response outcome \<times> 's" where
  "Delete repo tid ctx s =
     (let idParam = Param ctx ''id'' in
      if idParam = [] then (Fail (AppError ErrNotFound ''missing id parameter''), s)
      else
        (case ParseUint idParam of
           None \<Rightarrow> (Fail (AppError ErrNotFound ''invalid id format''), s)
         | Some idInt \<Rightarrow>
             (case type_assert tid (Uint64 idInt) of
                None \<Rightarrow> (Panic, s)
              | Some v \<Rightarrow>
                  (case Repository_DeleteById repo v s of
                     (Some err, s') \<Rightarrow> (Fail err, s')
                   | (None, s') \<Rightarrow> (Return (Success Nil), s')))))"

definition BatchCreate ::
  "('a, 's) IRepository \<Rightarrow> ('a Entity \<Rightarrow> error option) \<Rightarrow> 'a Context \<Rightarrow> 's \<Rightarrow> 'a response outcome \<times> 's" where
  "BatchCreate repo validate ctx s =
     (case BindEntities ctx of
        Inl err \<Rightarrow> (Fail err, s)
      | Inr entities \<Rightarrow>
          (case validate_each validate entities of
             Some err \<Rightarrow> (Fail err, s)
           | None \<Rightarrow>
               (case Transaction (Repository_BatchCreate repo entities) s of
                  ((Some err, entities'), s') \<Rightarrow> (Fail err, s')
                | ((None, entities'), s') \<Rightarrow> (Return (Success (Many entities')), s'))))"

definition BatchUpdate ::
  "('a, 's) IRepository \<Rightarrow> ('a Entity \<Rightarrow> error option) \<Rightarrow> 'a Context \<Rightarrow> 's \<Rightarrow> 'a response outcome \<times> 's" where
  "BatchUpdate repo validate ctx s =
     (case BindEntities ctx of
        Inl err \<Rightarrow> (Fail err, s)
      | Inr entities \<Rightarrow>
          (case validate_each validate entities of
             Some err \<Rightarrow> (Fail err, s)
           | None \<Rightarrow>
               (case Transaction (Repository_BatchUpdate repo entities) s of
                  ((Some err, entities'), s') \<Rightarrow> (Fail err, s')
                | ((None, entities'), s') \<Rightarrow> (Return (Success (Many entities')), s'))))"

definition BatchDelete ::
  "('a, 's) IRepository \<Rightarrow> 'a Context \<Rightarrow> 's \<Rightarrow> 'a response outcome \<times> 's" where
  "BatchDelete repo ctx s =
     (case BindIDs ctx of
        Inl err \<Rightarrow> (Fail err, s)
      | Inr ids \<Rightarrow>
          if length ids = 0 then (Fail (AppError ErrInvalidParam ''no ids provided''), s)
          else
            (case Transaction (\<lambda>t. case Repository_BatchDelete repo ids t of (e, t') \<Rightarrow> ((e, ()), t')) s of
               ((Some err, u), s') \<Rightarrow> (Fail err, s')
             | ((None, u), s') \<Rightarrow> (Return (Success Nil), s')))"

section \<open>The Swagger document generator\<close>

subsection \<open>Reflected types\<close>

text \<open>
  A \<^verbatim>\<open>reflect.Type\<close> as the generator reads it: its kind, its name, and for a pointer or
  a slice its element type, for a struct its \<^verbatim>\<open>String()\<close> and its fields. Pointers,
  slices and structs are constructors of their own; every other kind is \<open>Basic\<close>. The
  description is a finite tree, so a type that contains itself is not an \<open>rtype\<close> (on
  such a type the generator's recursion does not end).
\<close>

datatype Kind =
    reflect_Bool
  | reflect_Int | reflect_Int8 | reflect_Int16 | reflect_Int32 | reflect_Int64
  | reflect_Uint | reflect_Uint8 | reflect_Uint16 | reflect_Uint32 | reflect_Uint64
  | reflect_Uintptr
  | reflect_Float32 | reflect_Float64
  | reflect_Complex64 | reflect_Complex128
  | reflect_Array | reflect_Chan | reflect_Func | reflect_Interface | reflect_Map
  | reflect_String | reflect_UnsafePointer

datatype rtype =
    Basic Kind string
  | PtrTo string rtype
  | SliceOf string rtype
  | StructOf string string "StructField list"
and StructField =
    StructField (Field_Name: string) (Field_Type: rtype) (Field_Tag: "(string \<times> string) list")
      (Field_Anonymous: bool)

text \<open>\<^verbatim>\<open>t.Name()\<close>.\<close>

fun Type_Name :: "rtype \<Rightarrow> string" where
  "Type_Name (Basic k n) = n"
| "Type_Name (PtrTo n t) = n"
| "Type_Name (SliceOf n t) = n"
| "Type_Name (StructOf n s fs) = n"

text \<open>\<^verbatim>\<open>if t.Kind() == reflect.Ptr { t = t.Elem() }\<close>: one pointer is followed.\<close>

fun Elem_if_Ptr :: "rtype \<Rightarrow> rtype" where
  "Elem_if_Ptr (PtrTo n t) = t"
| "Elem_if_Ptr (Basic k n) = Basic k n"
| "Elem_if_Ptr (SliceOf n t) = SliceOf n t"
| "Elem_if_Ptr (StructOf n s fs) = StructOf n s fs"

text \<open>\<^verbatim>\<open>field.Tag.Get(key)\<close>: the value of the first pair of the tag under \<open>key\<close>, the
  empty string when there is none.\<close>

definition Tag_Get :: "(string \<times> string) list \<Rightarrow> string \<Rightarrow> string" where
  "Tag_Get tag key = (case map_of tag key of Some v \<Rightarrow> v | None \<Rightarrow> [])"

text \<open>\<^verbatim>\<open>strings.Split(s, sep)\<close> for a separator of one byte: the pieces of \<open>s\<close> between the
  separators, at least one piece.\<close>

fun Split :: "string \<Rightarrow> char \<Rightarrow> string list" where
  "Split [] sep = [[]]"
| "Split (c # cs) sep =
     (if c = sep then [] # Split cs sep
      else (c # hd (Split cs sep)) # tl (Split cs sep))"

subsection \<open>Schemas\<close>

text \<open>The fields of \<^verbatim>\<open>spec.Schema\<close> the generator writes. A nil map and an empty map
  are both the empty map, a nil slice and an empty slice both the empty list; an unset
  string is empty.\<close>

datatype Schema =
  Schema (Schema_Ref: string) (Schema_Description: string) (Schema_Type: "string list")
    (Schema_Format: string) (Schema_Example: string) (Schema_Items: "Schema option")
    (Schema_Properties: "string \<Rightarrow> Schema option") (Schema_Required: "string list")

text \<open>The type and format that \<^verbatim>\<open>getFieldSchema\<close>'s switch gives a field of a basic
  kind; a kind the switch does not list gets neither.\<close>

fun Kind_Type_Format :: "Kind \<Rightarrow> string list \<times> string" where
  "Kind_Type_Format reflect_String = ([''string''], [])"
| "Kind_Type_Format reflect_Int = ([''integer''], [])"
| "Kind_Type_Format reflect_Int8 = ([''integer''], [])"
| "Kind_Type_Format reflect_Int16 = ([''integer''], [])"
| "Kind_Type_Format reflect_Int32 = ([''integer''], [])"
| "Kind_Type_Format reflect_Int64 = ([''integer''], ''int64'')"
| "Kind_Type_Format reflect_Uint = ([''integer''], [])"
| "Kind_Type_Format reflect_Uint8 = ([''integer''], [])"
| "Kind_Type_Format reflect_Uint16 = ([''integer''], [])"
| "Kind_Type_Format reflect_Uint32 = ([''integer''], [])"
| "Kind_Type_Format reflect_Uint64 = ([''integer''], ''int64'')"
| "Kind_Type_Format reflect_Float32 = ([''number''], [])"
| "Kind_Type_Format reflect_Float64 = ([''number''], ''double'')"
| "Kind_Type_Format reflect_Bool = ([''boolean''], [])"
| "Kind_Type_Format k = ([], [])"

text \<open>The resolved name of a named field: the part of its \<^verbatim>\<open>json\<close> tag before the first
  comma, or the field's own name when it has no such tag.\<close>

definition resolved_name :: "StructField \<Rightarrow> string" where
  "resolved_name field =
     (let jsonTag = Tag_Get (Field_Tag field) ''json''
      in if jsonTag \<noteq> [] then hd (Split jsonTag CHR '','') else Field_Name field)"

text \<open>
  \<^verbatim>\<open>generateSchema\<close> and \<^verbatim>\<open>getFieldSchema\<close>, which call each other, and the loop of
  \<^verbatim>\<open>generateSchema\<close> over the fields of a struct (\<open>generateSchema_fields\<close>, which
  carries the \<^verbatim>\<open>Properties\<close> map and the \<^verbatim>\<open>Required\<close> list built so far).
  \<^verbatim>\<open>generateSchema\<close> follows one pointer, then tells a slice, a struct and anything else.
\<close>

fun generateSchema :: "rtype \<Rightarrow> Schema"
  and getFieldSchema :: "StructField \<Rightarrow> Schema"
  and generateSchema_fields ::
    "StructField list \<Rightarrow> (string \<Rightarrow> Schema option) \<Rightarrow> string list
       \<Rightarrow> (string \<Rightarrow> Schema option) \<times> string list"
where
  "generateSchema (PtrTo n (SliceOf m t)) =
     Schema [] [] [''array''] [] [] (Some (generateSchema t)) Map.empty []"
| "generateSchema (PtrTo n (StructOf m s fs)) =
     (case generateSchema_fields fs Map.empty [] of
        (properties, required) \<Rightarrow> Schema [] [] [''object''] [] [] None properties required)"
| "generateSchema (PtrTo n (PtrTo m t)) = Schema [] [] [''object''] [] [] None Map.empty []"
| "generateSchema (PtrTo n (Basic k m)) = Schema [] [] [''object''] [] [] None Map.empty []"
| "generateSchema (SliceOf m t) =
     Schema [] [] [''array''] [] [] (Some (generateSchema t)) Map.empty []"
| "generateSchema (StructOf m s fs) =
     (case generateSchema_fields fs Map.empty [] of
        (properties, required) \<Rightarrow> Schema [] [] [''object''] [] [] None properties required)"
| "generateSchema (Basic k m) = Schema [] [] [''object''] [] [] None Map.empty []"
| "getFieldSchema (StructField name (Basic k m) tag anonymous) =
     Schema [] (Tag_Get tag ''description'') (fst (Kind_Type_Format k)) (snd (Kind_Type_Format k))
       (Tag_Get tag ''example'') None Map.empty []"
| "getFieldSchema (StructField name (StructOf m s fs) tag anonymous) =
     (if s = ''time.Time''
      then Schema [] (Tag_Get tag ''description'') [''string''] ''date-time''
             (Tag_Get tag ''example'') None Map.empty []
      else generateSchema (StructOf m s fs))"
| "getFieldSchema (StructField name (PtrTo m t) tag anonymous) = generateSchema t"
| "getFieldSchema (StructField name (SliceOf m t) tag anonymous) =
     Schema [] (Tag_Get tag ''description'') [''array''] [] (Tag_Get tag ''example'')
       (Some (generateSchema t)) Map.empty []"
| "generateSchema_fields [] properties required = (properties, required)"
| "generateSchema_fields (StructField name t tag anonymous # fs) properties required =
     (if anonymous
      then generateSchema_fields fs
             (properties ++ Schema_Properties (generateSchema t)) required
      else if Tag_Get tag ''json'' = ''-''
      then generateSchema_fields fs properties required
      else generateSchema_fields fs
             (properties(resolved_name (StructField name t tag anonymous)
                \<mapsto> getFieldSchema (StructField name t tag anonymous)))
             (if Tag_Get tag ''binding'' = ''required''
              then required @ [resolved_name (StructField name t tag anonymous)]
              else required))"

subsection \<open>Routes, operations and documents\<close>

text \<open>\<^verbatim>\<open>strings.Contains\<close>, and \<^verbatim>\<open>strings.ReplaceAll\<close> for a non-empty \<open>old\<close> (the
  generator replaces \<^verbatim>\<open>:id\<close> only): the occurrences are replaced from the left and do not
  overlap.\<close>

fun Contains :: "string \<Rightarrow> string \<Rightarrow> bool" where
  "Contains [] substr = (substr = [])"
| "Contains (c # cs) substr = (take (length substr) (c # cs) = substr \<or> Contains cs substr)"

function ReplaceAll :: "string \<Rightarrow> string \<Rightarrow> string \<Rightarrow> string" where
  "ReplaceAll s old new =
     (if s = [] \<or> old = [] then s
      else if take (length old) s = old then new @ ReplaceAll (drop (length old) s) old new
      else hd s # ReplaceAll (tl s) old new)"
  by pat_completeness auto
termination
  by (relation "measure (\<lambda>(s, old, new). length s)") auto

text \<open>The fields of \<^verbatim>\<open>types.APIRoute\<close> the generator reads. \<open>Route_Request\<close> and
  \<open>Route_Response\<close> are \<^verbatim>\<open>reflect.TypeOf\<close> of the sample values, \<open>None\<close> for nil.\<close>

record APIRoute =
  Route_Path :: string
  Route_Method :: string
  Route_Tags :: "string list"
  Route_Summary :: string
  Route_Description :: string
  Route_Request :: "rtype option"
  Route_Response :: "rtype option"

record Parameter =
  Parameter_Name :: string
  Parameter_In :: string
  Parameter_Description :: string
  Parameter_Required :: bool
  Parameter_Schema :: "Schema option"
  Parameter_Type :: string

record Response =
  Response_Description :: string
  Response_Schema :: "Schema option"

record Operation =
  Operation_Tags :: "string list"
  Operation_Summary :: string
  Operation_Description :: string
  Operation_Parameters :: "Parameter list"
  Operation_Responses :: "int \<Rightarrow> Response option"

record PathItem =
  PathItem_Get :: "Operation option"
  PathItem_Post :: "Operation option"
  PathItem_Put :: "Operation option"
  PathItem_Delete :: "Operation option"

record Tag =
  Tag_Name :: string
  Tag_Description :: string

record Info =
  Info_Title :: string
  Info_Description :: string
  Info_Version :: string

record Swagger =
  Swagger_Swagger :: string
  Swagger_Info :: Info
  Swagger_Host :: string
  Swagger_BasePath :: string
  Swagger_Schemes :: "string list"
  Swagger_Consumes :: "string list"
  Swagger_Produces :: "string list"
  Swagger_Paths :: "string \<Rightarrow> PathItem option"
  Swagger_Definitions :: "string \<Rightarrow> Schema option"
  Swagger_Tags :: "Tag list"

record Generator =
  docs :: "string \<Rightarrow> Swagger option"

definition NewGenerator :: Generator where
  "NewGenerator = \<lparr> docs = Map.empty \<rparr>"

text \<open>A \<^verbatim>\<open>range\<close> over a Go map visits every key once, in an order the language leaves
  open. Where the order can matter, the model takes it as an argument: the list of the
  map's keys as the loop visits them.\<close>

definition iteration_order :: "('k \<Rightarrow> 'v option) \<Rightarrow> 'k list \<Rightarrow> bool" where
  "iteration_order m order = (distinct order \<and> set order = dom m)"

definition generateOperation :: "APIRoute \<Rightarrow> string \<Rightarrow> Operation" where
  "generateOperation route entityName =
     \<lparr> Operation_Tags = Route_Tags route,
       Operation_Summary = Route_Summary route,
       Operation_Description = Route_Description route,
       Operation_Parameters =
         (if Contains (Route_Path route) '':id''
          then [\<lparr> Parameter_Name = ''id'', Parameter_In = ''path'',
                   Parameter_Description = ''Entity ID'', Parameter_Required = True,
                   Parameter_Schema = None, Parameter_Type = ''integer'' \<rparr>]
          else [])
         @ (if Route_Method route = ''POST'' \<or> Route_Method route = ''PUT''
            then [\<lparr> Parameter_Name = ''body'', Parameter_In = ''body'',
                     Parameter_Description = ''Request body'', Parameter_Required = True,
                     Parameter_Schema =
                       Some (case Route_Request route of
                               Some t \<Rightarrow> generateSchema t
                             | None \<Rightarrow>
                                 Schema (''#/definitions/'' @ entityName) [] [] [] [] None Map.empty []),
                     Parameter_Type = [] \<rparr>]
            else []),
       Operation_Responses =
         (case Route_Response route of
            Some t \<Rightarrow>
              [200 \<mapsto> \<lparr> Response_Description = ''Success'', Response_Schema = Some (generateSchema t) \<rparr>]
          | None \<Rightarrow> Map.empty) \<rparr>"

text \<open>Lines 43 to 48 of \<^verbatim>\<open>RegisterEntityWithVersion\<close>: the routes grouped by their
  documented path.\<close>

definition route_path :: "string \<Rightarrow> APIRoute \<Rightarrow> string" where
  "route_path routePath route = ReplaceAll (''/'' @ routePath @ Route_Path route) '':id'' ''{id}''"

definition group_routes :: "string \<Rightarrow> APIRoute list \<Rightarrow> (string \<Rightarrow> APIRoute list option)" where
  "group_routes routePath allRoutes =
     foldl (\<lambda>routeGroups route.
              routeGroups(route_path routePath route \<mapsto>
                (case routeGroups (route_path routePath route) of None \<Rightarrow> [] | Some routes \<Rightarrow> routes)
                @ [route]))
       Map.empty allRoutes"

text \<open>Lines 52 to 65: the path item of one group, one operation for each method, a later
  route of the same method replacing an earlier one.\<close>

definition path_item :: "string \<Rightarrow> APIRoute list \<Rightarrow> PathItem" where
  "path_item entityName routes =
     foldl (\<lambda>pathItem route.
              if Route_Method route = ''GET''
              then pathItem\<lparr>PathItem_Get := Some (generateOperation route entityName)\<rparr>
              else if Route_Method route = ''POST''
              then pathItem\<lparr>PathItem_Post := Some (generateOperation route entityName)\<rparr>
              else if Route_Method route = ''PUT''
              then pathItem\<lparr>PathItem_Put := Some (generateOperation route entityName)\<rparr>
              else if Route_Method route = ''DELETE''
              then pathItem\<lparr>PathItem_Delete := Some (generateOperation route entityName)\<rparr>
              else pathItem)
       \<lparr> PathItem_Get = None, PathItem_Post = None, PathItem_Put = None, PathItem_Delete = None \<rparr>
       routes"

text \<open>Lines 76 to 95: the definition a request or response sample adds.\<close>

definition collect_sample ::
  "string \<Rightarrow> (string \<Rightarrow> Schema option) \<Rightarrow> rtype option \<Rightarrow> (string \<Rightarrow> Schema option)" where
  "collect_sample entityName definitions sample =
     (case sample of
        None \<Rightarrow> definitions
      | Some t \<Rightarrow>
          if Type_Name (Elem_if_Ptr t) \<noteq> [] \<and> Type_Name (Elem_if_Ptr t) \<noteq> entityName
          then definitions(Type_Name (Elem_if_Ptr t) \<mapsto> generateSchema (Elem_if_Ptr t))
          else definitions)"

definition collect_route ::
  "string \<Rightarrow> (string \<Rightarrow> Schema option) \<Rightarrow> APIRoute \<Rightarrow> (string \<Rightarrow> Schema option)" where
  "collect_route entityName definitions route =
     collect_sample entityName
       (collect_sample entityName definitions (Route_Request route)) (Route_Response route)"

text \<open>Lines 74 to 97: the loop over the groups, in the order \<open>order\<close>, and over the routes
  of each group.\<close>

definition collect_definitions ::
  "string \<Rightarrow> (string \<Rightarrow> APIRoute list option) \<Rightarrow> string list \<Rightarrow> (string \<Rightarrow> Schema option)
     \<Rightarrow> (string \<Rightarrow> Schema option)" where
  "collect_definitions entityName routeGroups order definitions =
     foldl (\<lambda>defs path.
              case routeGroups path of
                None \<Rightarrow> defs
              | Some routes \<Rightarrow> foldl (collect_route entityName) defs routes)
       definitions order"

text \<open>\<open>controller\<close> is what the controller's \<^verbatim>\<open>GetRoutes\<close> returns, \<open>None\<close> for a
  controller without that method. \<open>order\<close> is the order in which the loop of line 74
  visits the path groups; the loop of line 51 writes one entry for each group, whatever
  its order.\<close>

definition RegisterEntityWithVersion ::
  "Generator \<Rightarrow> rtype \<Rightarrow> string \<Rightarrow> string \<Rightarrow> APIRoute list option \<Rightarrow> string \<Rightarrow> string list
     \<Rightarrow> Generator" where
  "RegisterEntityWithVersion g entityType basePath routePath controller version order =
     (let entityName = Type_Name (Elem_if_Ptr entityType);
          allRoutes = (case controller of Some routes \<Rightarrow> routes | None \<Rightarrow> []);
          routeGroups = group_routes routePath allRoutes;
          paths = (\<lambda>path. map_option (path_item entityName) (routeGroups path));
          definitions =
            collect_definitions entityName routeGroups order
              [entityName \<mapsto> generateSchema (Elem_if_Ptr entityType)];
          swagger =
            \<lparr> Swagger_Swagger = [],
              Swagger_Info =
                \<lparr> Info_Title = entityName @ '' API'',
                  Info_Description = ''API documentation for '' @ entityName,
                  Info_Version = version \<rparr>,
              Swagger_Host = [],
              Swagger_BasePath = basePath,
              Swagger_Schemes = [],
              Swagger_Consumes = [],
              Swagger_Produces = [],
              Swagger_Paths = paths,
              Swagger_Definitions = definitions,
              Swagger_Tags =
                [\<lparr> Tag_Name = entityName,
                    Tag_Description = ''Operations about '' @ entityName \<rparr>] \<rparr>
      in g\<lparr>docs := (docs g)(routePath @ ''_'' @ version \<mapsto> swagger)\<rparr>)"

definition GetSwagger :: "Generator \<Rightarrow> string \<Rightarrow> Swagger option" where
  "GetSwagger g entityPath = docs g entityPath"

subsection \<open>Merging the documents\<close>

text \<open>Lines 144 to 162 of \<^verbatim>\<open>GetAllSwagger\<close>: the empty document of a version.\<close>

definition new_version_doc :: "string \<Rightarrow> Swagger" where
  "new_version_doc version =
     \<lparr> Swagger_Swagger = ''2.0'',
       Swagger_Info =
         \<lparr> Info_Title = ''Fast CRUD API ('' @ version @ '')'',
           Info_Description = ''Auto-generated API documentation for version '' @ version,
           Info_Version = version \<rparr>,
       Swagger_Host = [],
       Swagger_BasePath = ''/api/'' @ version,
       Swagger_Schemes = [''http''],
       Swagger_Consumes = [''application/json''],
       Swagger_Produces = [''application/json''],
       Swagger_Paths = Map.empty,
       Swagger_Definitions = Map.empty,
       Swagger_Tags = [] \<rparr>"

text \<open>Lines 165 to 188: one stored document merged into the document of its version. Every
  path is written; a definition is written only under a name not yet there; a tag is
  appended only when its name is not among the tags the version's document had before
  this document.\<close>

definition merge_version_doc :: "Swagger \<Rightarrow> Swagger \<Rightarrow> Swagger" where
  "merge_version_doc versionDoc swagger =
     versionDoc
       \<lparr> Swagger_Paths := Swagger_Paths versionDoc ++ Swagger_Paths swagger,
         Swagger_Definitions :=
           (\<lambda>name. case Swagger_Definitions versionDoc name of
                      Some schema \<Rightarrow> Some schema
                    | None \<Rightarrow> Swagger_Definitions swagger name),
         Swagger_Tags :=
           Swagger_Tags versionDoc
           @ filter (\<lambda>tag. Tag_Name tag \<notin> set (map Tag_Name (Swagger_Tags versionDoc)))
               (Swagger_Tags swagger) \<rparr>"

definition GetAllSwagger_step ::
  "Generator \<Rightarrow> (string \<Rightarrow> Swagger option) \<Rightarrow> string \<Rightarrow> (string \<Rightarrow> Swagger option)" where
  "GetAllSwagger_step g versionDocs path =
     (case docs g path of
        None \<Rightarrow> versionDocs
      | Some swagger \<Rightarrow>
          if length (Split path CHR ''_'') < 2 then versionDocs
          else
            (let version = last (Split path CHR ''_'')
             in versionDocs(version \<mapsto>
                  merge_version_doc
                    (case versionDocs version of
                       None \<Rightarrow> new_version_doc version
                     | Some versionDoc \<Rightarrow> versionDoc)
                    swagger)))"

text \<open>\<open>order\<close> is the order in which the loop visits the keys of \<^verbatim>\<open>g.docs\<close>.\<close>

definition GetAllSwagger :: "Generator \<Rightarrow> string list \<Rightarrow> (string \<Rightarrow> Swagger option)" where
  "GetAllSwagger g order = foldl (GetAllSwagger_step g) Map.empty order"

definition mergeSwaggers_step :: "Generator \<Rightarrow> Swagger \<Rightarrow> string \<Rightarrow> Swagger" where
  "mergeSwaggers_step g merged path =
     (case docs g path of
        None \<Rightarrow> merged
      | Some swagger \<Rightarrow>
          merged
            \<lparr> Swagger_Paths := Swagger_Paths merged ++ Swagger_Paths swagger,
              Swagger_Definitions := Swagger_Definitions merged ++ Swagger_Definitions swagger,
              Swagger_Tags := Swagger_Tags merged @ Swagger_Tags swagger \<rparr>)"

definition mergeSwaggers :: "Generator \<Rightarrow> string list \<Rightarrow> Swagger" where
  "mergeSwaggers g order =
     foldl (mergeSwaggers_step g)
       \<lparr> Swagger_Swagger = ''2.0'',
         Swagger_Info =
           \<lparr> Info_Title = ''Fast CRUD API'',
             Info_Description = ''Auto-generated API documentation'',
             Info_Version = ''1.0'' \<rparr>,
         Swagger_Host = ''localhost:8080'',
         Swagger_BasePath = ''/api/v1'',
         Swagger_Schemes = [''http''],
         Swagger_Consumes = [''application/json''],
         Swagger_Produces = [''application/json''],
         Swagger_Paths = Map.empty,
         Swagger_Definitions = Map.empty,
         Swagger_Tags = [] \<rparr>
       order"

section \<open>Concrete collaborators and inputs\<close>

text \<open>A repository that keeps its entities in a list, to run the handlers on concrete
  requests. Its \<open>BatchCreate\<close> stores the entities one after the other and stops at the
  first identifier already in the store, leaving the earlier ones stored: only a
  transaction undoes them.\<close>

fun mem_BatchCreate ::
  "'a Entity list \<Rightarrow> 'a Entity list \<Rightarrow> (error option \<times> 'a Entity list) \<times> 'a Entity list" where
  "mem_BatchCreate [] store = ((None, []), store)"
| "mem_BatchCreate (e # es) store =
     (if list_ex (\<lambda>x. ID x = ID e) store
      then ((Some (CollaboratorError ''duplicate key''), e # es), store)
      else (case mem_BatchCreate es (store @ [e]) of ((r, es'), store') \<Rightarrow> ((r, e # es'), store')))"

definition mem_repo :: "('a, 'a Entity list) IRepository" where
  "mem_repo =
     \<lparr> Repository_Create = (\<lambda>e store. ((None, e), store @ [e])),
       Repository_FindById = (\<lambda>i store. ((None, find (\<lambda>x. ID x = i) store), store)),
       Repository_Update = (\<lambda>e store. ((None, e), map (\<lambda>x. if ID x = ID e then e else x) store)),
       Repository_DeleteById = (\<lambda>i store. (None, filter (\<lambda>x. ID x \<noteq> i) store)),
       Repository_BatchCreate = mem_BatchCreate,
       Repository_BatchUpdate =
         (\<lambda>es store. ((None, es),
            map (\<lambda>x. case find (\<lambda>e. ID e = ID x) es of Some e \<Rightarrow> e | None \<Rightarrow> x) store)),
       Repository_BatchDelete = (\<lambda>ids store. (None, filter (\<lambda>x. ID x \<notin> set ids) store)) \<rparr>"

text \<open>A request with the path parameter \<open>id\<close> and no body.\<close>

definition request :: "string \<Rightarrow> 'a Context" where
  "request p =
     \<lparr> Param = (\<lambda>key. if key = ''id'' then p else []),
       BindEntity = Inl (CollaboratorError ''EOF''),
       BindEntities = Inl (CollaboratorError ''EOF''),
       BindIDs = Inl (CollaboratorError ''EOF'') \<rparr>"

text \<open>A validator that requires the entity's name.\<close>

definition name_required :: "string Entity \<Rightarrow> error option" where
  "name_required e = (if Fields e = [] then Some (CollaboratorError ''name is required'') else None)"

definition three_entities :: "string Entity list" where
  "three_entities =
     [\<lparr>ID = Uint64 1, Fields = ''ann''\<rparr>, \<lparr>ID = Uint64 2, Fields = []\<rparr>, \<lparr>ID = Uint64 3, Fields = ''cy''\<rparr>]"

definition clashing_entities :: "string Entity list" where
  "clashing_entities = [\<lparr>ID = Uint64 1, Fields = ''ann''\<rparr>, \<lparr>ID = Uint64 1, Fields = ''bob''\<rparr>]"

section \<open>Notions of the specification, and concrete types\<close>

text \<open>A field that carries the required marker and that the loop of \<^verbatim>\<open>generateSchema\<close>
  names: not embedded, not skipped by \<^verbatim>\<open>json:"-"\<close>, tagged \<^verbatim>\<open>binding:"required"\<close>.\<close>

definition required_field :: "StructField \<Rightarrow> bool" where
  "required_field field =
     (\<not> Field_Anonymous field \<and> Tag_Get (Field_Tag field) ''json'' \<noteq> ''-''
      \<and> Tag_Get (Field_Tag field) ''binding'' = ''required'')"

text \<open>The properties one field of a struct contributes to the schema of the struct: those of
  its type for an embedded field, none for a skipped field, and for any other field one
  property under its resolved name.\<close>

definition field_properties :: "StructField \<Rightarrow> (string \<Rightarrow> Schema option)" where
  "field_properties field =
     (if Field_Anonymous field then Schema_Properties (generateSchema (Field_Type field))
      else if Tag_Get (Field_Tag field) ''json'' = ''-'' then Map.empty
      else [resolved_name field \<mapsto> getFieldSchema field])"

text \<open>Struct types to run the generator on.\<close>

definition Base_type :: rtype where
  "Base_type = StructOf ''Base'' ''main.Base''
     [StructField ''ID'' (Basic reflect_Uint64 ''uint64'') [(''json'', ''id''), (''binding'', ''required'')] False]"

definition Outer_type :: rtype where
  "Outer_type = StructOf ''Outer'' ''main.Outer''
     [StructField ''Base'' Base_type [] True,
      StructField ''Name'' (Basic reflect_String ''string'') [(''json'', ''name''), (''binding'', ''required'')] False]"

definition Twice_type :: rtype where
  "Twice_type = StructOf ''Twice'' ''main.Twice''
     [StructField ''First'' (Basic reflect_String ''string'') [(''json'', ''name''), (''binding'', ''required'')] False,
      StructField ''Second'' (Basic reflect_String ''string'') [(''json'', ''name''), (''binding'', ''required'')] False]"

definition Hidden_type :: rtype where
  "Hidden_type = StructOf ''Hidden'' ''main.Hidden''
     [StructField ''Secret'' (Basic reflect_String ''string'') [(''json'', ''-''), (''binding'', ''required'')] False]"

definition Status_type :: rtype where
  "Status_type = StructOf ''Status'' ''main.Status''
     [StructField ''Status'' (Basic reflect_String ''string'') [] False]"

definition Order_type :: rtype where
  "Order_type = StructOf ''Order'' ''main.Order''
     [StructField ''Status'' Status_type [] True,
      StructField ''Total'' (Basic reflect_Int64 ''int64'') [(''json'', ''total'')] False]"

definition Tagged_type :: rtype where
  "Tagged_type = StructOf ''Tagged'' ''main.Tagged''
     [StructField ''Base'' Base_type [] True,
      StructField ''Label'' (Basic reflect_String ''string'') [(''json'', ''Base'')] False]"

definition Shadow_type :: rtype where
  "Shadow_type = StructOf ''Shadow'' ''main.Shadow''
     [StructField ''Base'' Base_type [] True,
      StructField ''Code'' (Basic reflect_String ''string'') [(''json'', ''id'')] False]"

text \<open>The sample types of the routes in the order in which the loop of lines 74 to 97 of
  \<^verbatim>\<open>RegisterEntityWithVersion\<close> reads them: the path groups in the order \<open>order\<close>, the
  routes of a group in the order of \<^verbatim>\<open>GetRoutes\<close>, the request of a route before its
  response, each with one pointer followed.\<close>

definition sample_types :: "APIRoute \<Rightarrow> rtype list" where
  "sample_types route =
     map Elem_if_Ptr
       ((case Route_Request route of None \<Rightarrow> [] | Some t \<Rightarrow> [t])
        @ (case Route_Response route of None \<Rightarrow> [] | Some t \<Rightarrow> [t]))"

definition visited_samples :: "string \<Rightarrow> APIRoute list \<Rightarrow> string list \<Rightarrow> rtype list" where
  "visited_samples routePath allRoutes order =
     concat (map sample_types
       (concat (map (\<lambda>path. case group_routes routePath allRoutes path of
                              None \<Rightarrow> []
                            | Some routes \<Rightarrow> routes) order)))"

text \<open>What one sample type adds to the definitions (lines 81 to 84, and 91 to 94).\<close>

definition add_sample :: "string \<Rightarrow> (string \<Rightarrow> Schema option) \<Rightarrow> rtype \<Rightarrow> (string \<Rightarrow> Schema option)" where
  "add_sample entityName definitions t =
     (if Type_Name t \<noteq> [] \<and> Type_Name t \<noteq> entityName
      then definitions(Type_Name t \<mapsto> generateSchema t) else definitions)"

text \<open>An entity whose two routes carry request samples of two types that are both called
  \<open>Request\<close>, and its registration.\<close>

definition Item_type :: rtype where
  "Item_type = StructOf ''Item'' ''main.Item''
     [StructField ''ID'' (Basic reflect_Uint64 ''uint64'') [(''json'', ''id'')] False]"

definition Request1_type :: rtype where
  "Request1_type = StructOf ''Request'' ''create.Request''
     [StructField ''Name'' (Basic reflect_String ''string'') [] False]"

definition Request2_type :: rtype where
  "Request2_type = StructOf ''Request'' ''replace.Request''
     [StructField ''Count'' (Basic reflect_Int ''int'') [] False]"

definition item_routes :: "APIRoute list" where
  "item_routes =
     [\<lparr> Route_Path = [], Route_Method = ''POST'', Route_Tags = [''Item''], Route_Summary = ''create'',
         Route_Description = [], Route_Request = Some Request1_type, Route_Response = None \<rparr>,
      \<lparr> Route_Path = [], Route_Method = ''PUT'', Route_Tags = [''Item''], Route_Summary = ''replace'',
         Route_Description = [], Route_Request = Some (PtrTo [] Request2_type), Route_Response = None \<rparr>]"

definition item_generator :: Generator where
  "item_generator =
     RegisterEntityWithVersion NewGenerator (PtrTo [] Item_type) ''/api/v1'' ''items''
       (Some item_routes) ''v1'' [''/items'']"

text \<open>The version under which \<^verbatim>\<open>GetAllSwagger\<close> files a stored document: the part of
  its key after the last underscore, none for a key without underscore. The key of a
  registration is the route path, an underscore and the version.\<close>

definition version_of :: "string \<Rightarrow> string option" where
  "version_of path =
     (if length (Split path CHR ''_'') < 2 then None else Some (last (Split path CHR ''_'')))"

text \<open>The stored documents of a version, and all stored documents, in the order in which the
  loop over \<^verbatim>\<open>g.docs\<close> visits them.\<close>

definition version_group :: "Generator \<Rightarrow> string list \<Rightarrow> string \<Rightarrow> Swagger list" where
  "version_group g order version =
     concat (map (\<lambda>path. case docs g path of
                           None \<Rightarrow> []
                         | Some swagger \<Rightarrow> if version_of path = Some version then [swagger] else [])
               order)"

definition all_docs :: "Generator \<Rightarrow> string list \<Rightarrow> Swagger list" where
  "all_docs g order =
     concat (map (\<lambda>path. case docs g path of None \<Rightarrow> [] | Some swagger \<Rightarrow> [swagger]) order)"

text \<open>The merge rules in the words of the specification: a key has the value of the last
  (or of the first) of the documents that has it, and a tag list keeps the first tag of
  each name.\<close>

definition last_writer_of :: "('d \<Rightarrow> 'k \<Rightarrow> 'v option) \<Rightarrow> 'd list \<Rightarrow> 'k \<Rightarrow> 'v option" where
  "last_writer_of table ds key =
     (case find (\<lambda>d. table d key \<noteq> None) (rev ds) of None \<Rightarrow> None | Some d \<Rightarrow> table d key)"

definition first_writer_of :: "('d \<Rightarrow> 'k \<Rightarrow> 'v option) \<Rightarrow> 'd list \<Rightarrow> 'k \<Rightarrow> 'v option" where
  "first_writer_of table ds key =
     (case find (\<lambda>d. table d key \<noteq> None) ds of None \<Rightarrow> None | Some d \<Rightarrow> table d key)"

fun first_by_name :: "string set \<Rightarrow> Tag list \<Rightarrow> Tag list" where
  "first_by_name seen [] = []"
| "first_by_name seen (tag # tags) =
     (if Tag_Name tag \<in> seen then first_by_name seen tags
      else tag # first_by_name (insert (Tag_Name tag) seen) tags)"

text \<open>The generators that registrations build from the empty one.\<close>

inductive registered :: "Generator \<Rightarrow> bool" where
  registered_new: "registered NewGenerator"
| registered_entity:
    "registered g \<Longrightarrow>
       registered (RegisterEntityWithVersion g entityType basePath routePath controller version order)"

text \<open>Two entities registered under one version, and two entity types of one name
  registered under two route paths.\<close>

definition order_routes :: "APIRoute list" where
  "order_routes =
     [\<lparr> Route_Path = [], Route_Method = ''GET'', Route_Tags = [''Order''], Route_Summary = ''list'',
         Route_Description = [], Route_Request = None, Route_Response = None \<rparr>,
      \<lparr> Route_Path = ''/:id'', Route_Method = ''GET'', Route_Tags = [''Order''], Route_Summary = ''get'',
         Route_Description = [], Route_Request = None, Route_Response = None \<rparr>]"

definition shop_generator :: Generator where
  "shop_generator =
     RegisterEntityWithVersion item_generator Order_type ''/api/v1'' ''orders''
       (Some order_routes) ''v1'' [''/orders'', ''/orders/{id}'']"

definition User1_type :: rtype where
  "User1_type = StructOf ''User'' ''admin.User''
     [StructField ''Name'' (Basic reflect_String ''string'') [] False]"

definition User2_type :: rtype where
  "User2_type = StructOf ''User'' ''shop.User''
     [StructField ''Email'' (Basic reflect_String ''string'') [] False]"

definition twin_generator :: Generator where
  "twin_generator =
     RegisterEntityWithVersion
       (RegisterEntityWithVersion NewGenerator User1_type ''/api/v1'' ''users'' (Some []) ''v1'' [])
       User2_type ''/api/v1'' ''members'' (Some []) ''v1'' []"

text \<open>An entity registered under a version that has an underscore, and an entity registered
  under \<^verbatim>\<open>rc_v1\<close> beside one registered under \<open>v1\<close>.\<close>

definition beta_generator :: Generator where
  "beta_generator =
     RegisterEntityWithVersion NewGenerator User1_type ''/api/v1_beta'' ''users'' (Some []) ''v1_beta'' []"

definition candidate_generator :: Generator where
  "candidate_generator =
     RegisterEntityWithVersion
       (RegisterEntityWithVersion NewGenerator User1_type ''/api/v1'' ''users'' (Some []) ''v1'' [])
       User2_type ''/api/rc_v1'' ''members'' (Some []) ''rc_v1'' []"

text \<open>Two registrations under \<open>v1\<close> whose routes meet in the documented path \<open>/a/b\<close>, and
  the summary of the \<^verbatim>\<open>GET\<close> operation a document has at a path.\<close>

definition crossing_generator :: Generator where
  "crossing_generator =
     RegisterEntityWithVersion
       (RegisterEntityWithVersion NewGenerator User1_type ''/api/v1'' ''a''
          (Some [\<lparr> Route_Path = ''/b'', Route_Method = ''GET'', Route_Tags = [], Route_Summary = ''from a'',
                    Route_Description = [], Route_Request = None, Route_Response = None \<rparr>])
          ''v1'' [''/a/b''])
       Order_type ''/api/v1'' ''a/b''
       (Some [\<lparr> Route_Path = [], Route_Method = ''GET'', Route_Tags = [], Route_Summary = ''from ab'',
                 Route_Description = [], Route_Request = None, Route_Response = None \<rparr>])
       ''v1'' [''/a/b'']"

definition Get_Summary :: "Swagger \<Rightarrow> string \<Rightarrow> string option" where
  "Get_Summary swagger path =
     (case Swagger_Paths swagger path of
        None \<Rightarrow> None
      | Some item \<Rightarrow> map_option Operation_Summary (PathItem_Get item))"

section \<open>Properties of the controller\<close>

subsection \<open>Decoding the identifier\<close>

lemma zero_value_type: "type_assert_ok tid (zero_value tid)"
  by (cases tid) (simp_all add: type_assert_ok_def)

lemma GetById_decode_uuid:
  "uuid_Parse p = Some u \<Longrightarrow> GetById_decode tid p = (if tid = TID_UUID then Inr (UUID u) else Inl Panic)"
  by (simp add: GetById_decode_def zero_value_type type_assert_def)

lemma GetById_decode_uint:
  "uuid_Parse p = None \<Longrightarrow> ParseUint p = Some n \<Longrightarrow>
     GetById_decode tid p = (if tid = TID_uint64 then Inr (Uint64 n) else Inl Panic)"
  by (simp add: GetById_decode_def zero_value_type type_assert_def)

lemma GetById_decode_neither:
  "uuid_Parse p = None \<Longrightarrow> ParseUint p = None \<Longrightarrow>
     GetById_decode tid p = Inl (Fail (AppError ErrInvalidParam ''invalid id parameter''))"
  by (simp add: GetById_decode_def)

lemma uuid_Parse_canonical:
  "uuid_Parse ''123e4567-e89b-12d3-a456-426614174000'' =
     Some [0x12, 0x3e, 0x45, 0x67, 0xe8, 0x9b, 0x12, 0xd3, 0xa4, 0x56, 0x42, 0x66, 0x14, 0x17, 0x40, 0x00]"
  by (simp add: uuid_Parse_def xtob_def hexval_def)

lemma ParseUint_42: "ParseUint ''42'' = Some 42"
  by (simp add: ParseUint_def is_digit_def digits_value_def)

lemma uuid_Parse_42: "uuid_Parse ''42'' = None"
  by (simp add: uuid_Parse_def)

lemma ParseUint_abc: "ParseUint ''abc'' = None"
  by (simp add: ParseUint_def is_digit_def)

lemma uuid_Parse_abc: "uuid_Parse ''abc'' = None"
  by (simp add: uuid_Parse_def)

lemma ParseUint_7: "ParseUint ''7'' = Some 7"
  by (simp add: ParseUint_def is_digit_def digits_value_def)

text \<open>
  Claim C1 says that \<^verbatim>\<open>GetById\<close> answers a path identifier of the wrong representation
  with an InvalidParameter error and never panics. The guard before each conversion is
  \<^verbatim>\<open>any(idTID).(TID)\<close> on the zero value of \<open>TID\<close>, which holds for every \<open>TID\<close>
  (\<open>zero_value_type\<close>), so the branch that returns the error is never taken and the
  conversion \<^verbatim>\<open>any(idUUID).(TID)\<close> (or \<^verbatim>\<open>any(idInt).(TID)\<close>) panics: a UUID string on
  a controller whose identifiers are integers, and a decimal string on a controller whose
  identifiers are UUIDs, both end in a panic. A string that is neither does get the
  InvalidParameter error.
\<close>

theorem GetById_wrong_representation_panics:
  "GetById repo TID_uint64 (request ''123e4567-e89b-12d3-a456-426614174000'') s = (Panic, s)
   \<and> GetById repo TID_UUID (request ''42'') s = (Panic, s)
   \<and> GetById repo tid (request ''abc'') s
       = (Fail (AppError ErrInvalidParam ''invalid id parameter''), s)"
  by (simp add: GetById_def request_def GetById_decode_uuid[OF uuid_Parse_canonical]
      GetById_decode_uint[OF uuid_Parse_42 ParseUint_42]
      GetById_decode_neither[OF uuid_Parse_abc ParseUint_abc])

subsection \<open>Update and Delete\<close>

text \<open>
  Claim C8 says that \<^verbatim>\<open>Update\<close> and \<^verbatim>\<open>Delete\<close> report InvalidParameter for a path
  identifier that is present but is not an unsigned integer. Both return an error of code
  \<^verbatim>\<open>ErrNotFound\<close> with the message "invalid id format".
\<close>

theorem Delete_Update_unparseable_id_is_NotFound:
  "Delete repo tid (request ''abc'') s = (Fail (AppError ErrNotFound ''invalid id format''), s)
   \<and> Update repo (\<lambda>e. None) tid ((request ''abc'')\<lparr>BindEntity := Inr entity\<rparr>) s
       = (Fail (AppError ErrNotFound ''invalid id format''), s)"
  by (simp add: Delete_def Update_def request_def ParseUint_abc)

lemma Update_reaches_repository:
  assumes "ParseUint (Param ctx ''id'') = Some n" and "BindEntity ctx = Inr body"
    and "validate body = None"
  shows "Update repo validate TID_uint64 ctx s =
           (case Repository_Update repo (SetID (Uint64 n) body) s of
              ((Some err, entity'), s') \<Rightarrow> (Fail err, s')
            | ((None, entity'), s') \<Rightarrow> (Return (Success (One entity')), s'))"
proof -
  from assms(1) have "Param ctx ''id'' \<noteq> []" by (auto simp: ParseUint_def)
  with assms show ?thesis by (simp add: Update_def type_assert_def)
qed

lemma Update_stops_early:
  assumes "ParseUint (Param ctx ''id'') = Some n"
    and "tid = TID_UUID \<or> (\<exists>err. BindEntity ctx = Inl err) \<or> (\<exists>body. BindEntity ctx = Inr body \<and> validate body \<noteq> None)"
  shows "\<exists>out. (out = Panic \<or> (\<exists>err. out = Fail err)) \<and> (\<forall>repo s. Update repo validate tid ctx s = (out, s))"
proof -
  from assms(1) have ne: "Param ctx ''id'' \<noteq> []" by (auto simp: ParseUint_def)
  show ?thesis
  proof (cases "BindEntity ctx")
    case (Inl err)
    with ne show ?thesis by (auto simp: Update_def)
  next
    case (Inr body)
    show ?thesis
    proof (cases "validate body")
      case (Some err)
      with Inr ne show ?thesis by (auto simp: Update_def)
    next
      case None
      with Inr assms(2) have "tid = TID_UUID" by auto
      with None Inr ne assms(1) show ?thesis by (auto simp: Update_def type_assert_def)
    qed
  qed
qed

text \<open>
  Claim C10: for every \<^verbatim>\<open>Update\<close> request whose path identifier parses as the unsigned
  integer \<open>n\<close>, the entity handed to the repository's \<^verbatim>\<open>Update\<close> has the identifier
  \<open>n\<close>, whatever identifier the decoded body carried. Either the handler ends before it
  reaches the repository (the same way for every repository and store: a binding or
  validation error, or the panic of the conversion when \<open>TID\<close> is not the integer type),
  or its result is, for every repository, what that repository's \<^verbatim>\<open>Update\<close> makes of
  the body with its identifier set to \<open>n\<close>.
\<close>

theorem Update_entity_carries_path_id:
  assumes "ParseUint (Param ctx ''id'') = Some n"
  shows "(\<exists>out. (out = Panic \<or> (\<exists>err. out = Fail err))
            \<and> (\<forall>repo s. Update repo validate tid ctx s = (out, s)))
         \<or> (\<exists>body. BindEntity ctx = Inr body
              \<and> ID (SetID (Uint64 n) body) = Uint64 n
              \<and> Fields (SetID (Uint64 n) body) = Fields body
              \<and> (\<forall>repo s. Update repo validate tid ctx s =
                    (case Repository_Update repo (SetID (Uint64 n) body) s of
                       ((Some err, entity'), s') \<Rightarrow> (Fail err, s')
                     | ((None, entity'), s') \<Rightarrow> (Return (Success (One entity')), s'))))"
proof (cases "tid = TID_UUID \<or> (\<exists>err. BindEntity ctx = Inl err)
    \<or> (\<exists>body. BindEntity ctx = Inr body \<and> validate body \<noteq> None)")
  case True
  from Update_stops_early[OF assms True] show ?thesis by blast
next
  case False
  then have tid: "tid = TID_uint64" by (cases tid) auto
  from False obtain body where body: "BindEntity ctx = Inr body" "validate body = None"
    by (cases "BindEntity ctx") auto
  show ?thesis
  proof (intro disjI2 exI[of _ body] conjI allI)
    show "BindEntity ctx = Inr body" by fact
    show "ID (SetID (Uint64 n) body) = Uint64 n" by (simp add: SetID_def)
    show "Fields (SetID (Uint64 n) body) = Fields body" by (simp add: SetID_def)
    fix repo s
    show "Update repo validate tid ctx s =
      (case Repository_Update repo (SetID (Uint64 n) body) s of
         ((Some err, entity'), s') \<Rightarrow> (Fail err, s')
       | ((None, entity'), s') \<Rightarrow> (Return (Success (One entity')), s'))"
      using Update_reaches_repository[where validate = validate, OF assms body] tid by simp
  qed
qed

text \<open>The path says 7 and the body says 999: the entity stored is number 7.\<close>

theorem Update_entity_carries_path_id_witness:
  "ParseUint (Param ((request ''7'')\<lparr>BindEntity := Inr \<lparr>ID = Uint64 999, Fields = ''new''\<rparr>\<rparr>) ''id'') = Some 7
   \<and> Update mem_repo (\<lambda>e. None) TID_uint64
       ((request ''7'')\<lparr>BindEntity := Inr \<lparr>ID = Uint64 999, Fields = ''new''\<rparr>\<rparr>)
       [\<lparr>ID = Uint64 7, Fields = ''old''\<rparr>]
     = (Return (Success (One \<lparr>ID = Uint64 7, Fields = ''new''\<rparr>)), [\<lparr>ID = Uint64 7, Fields = ''new''\<rparr>])"
proof -
  let ?ctx = "(request ''7'')\<lparr>BindEntity := Inr \<lparr>ID = Uint64 999, Fields = ''new''\<rparr>\<rparr> :: string Context"
  have h: "ParseUint (Param ?ctx ''id'') = Some 7"
    by (simp add: request_def ParseUint_7)
  show ?thesis
    using h Update_entity_carries_path_id[OF h, of "\<lambda>e. None" TID_uint64]
    by (simp add: Update_def request_def mem_repo_def SetID_def type_assert_def)
qed

subsection \<open>Batches\<close>

lemma Transaction_rolls_back:
  "Transaction fn s = ((Some err, r), t) \<Longrightarrow> t = s"
  by (auto simp: Transaction_def split: prod.splits option.splits)

lemma Transaction_error:
  "fn s = ((Some err, r), t) \<Longrightarrow> Transaction fn s = ((Some err, r), s)"
  by (simp add: Transaction_def)

lemma validate_each_first_failure:
  "list_all (\<lambda>x. validate x = None) pre \<Longrightarrow> validate entity = Some err \<Longrightarrow>
     validate_each validate (pre @ entity # post) = Some err"
  by (induction pre) auto

lemma BatchCreate_all_or_nothing:
  "(\<exists>r. fst (BatchCreate repo validate ctx s) = Return r) \<or> snd (BatchCreate repo validate ctx s) = s"
  by (auto simp: BatchCreate_def split: sum.splits option.splits prod.splits dest: Transaction_rolls_back)

lemma BatchUpdate_all_or_nothing:
  "(\<exists>r. fst (BatchUpdate repo validate ctx s) = Return r) \<or> snd (BatchUpdate repo validate ctx s) = s"
  by (auto simp: BatchUpdate_def split: sum.splits option.splits prod.splits dest: Transaction_rolls_back)

lemma BatchDelete_all_or_nothing:
  "(\<exists>r. fst (BatchDelete repo ctx s) = Return r) \<or> snd (BatchDelete repo ctx s) = s"
  by (auto simp: BatchDelete_def split: sum.splits option.splits prod.splits dest: Transaction_rolls_back)

text \<open>
  Claim C2: a batch that fails persists nothing, and the first failing item's error is
  returned. For each of \<^verbatim>\<open>BatchCreate\<close>, \<^verbatim>\<open>BatchUpdate\<close> and \<^verbatim>\<open>BatchDelete\<close>, the
  handler either returns a value or leaves the store as it was. When an entity fails
  validation and the ones before it pass, the handlers return that entity's error without
  touching the store; when the repository's batch method returns an error inside the
  transaction, the handlers return that error and the store is the one before the call.
\<close>

theorem batch_aborts_as_a_whole:
  "((\<exists>r. fst (BatchCreate repo validate ctx s) = Return r) \<or> snd (BatchCreate repo validate ctx s) = s)
   \<and> ((\<exists>r. fst (BatchUpdate repo validate ctx s) = Return r) \<or> snd (BatchUpdate repo validate ctx s) = s)
   \<and> ((\<exists>r. fst (BatchDelete repo ctx s) = Return r) \<or> snd (BatchDelete repo ctx s) = s)
   \<and> (\<forall>pre entity post err.
         BindEntities ctx = Inr (pre @ entity # post) \<and> list_all (\<lambda>x. validate x = None) pre
           \<and> validate entity = Some err
         \<longrightarrow> BatchCreate repo validate ctx s = (Fail err, s)
             \<and> BatchUpdate repo validate ctx s = (Fail err, s))
   \<and> (\<forall>entities err entities' t.
         BindEntities ctx = Inr entities \<and> validate_each validate entities = None
           \<and> Repository_BatchCreate repo entities s = ((Some err, entities'), t)
         \<longrightarrow> BatchCreate repo validate ctx s = (Fail err, s))
   \<and> (\<forall>entities err entities' t.
         BindEntities ctx = Inr entities \<and> validate_each validate entities = None
           \<and> Repository_BatchUpdate repo entities s = ((Some err, entities'), t)
         \<longrightarrow> BatchUpdate repo validate ctx s = (Fail err, s))
   \<and> (\<forall>ids err t.
         BindIDs ctx = Inr ids \<and> ids \<noteq> [] \<and> Repository_BatchDelete repo ids s = (Some err, t)
         \<longrightarrow> BatchDelete repo ctx s = (Fail err, s))"
proof (intro conjI allI impI)
  show "(\<exists>r. fst (BatchCreate repo validate ctx s) = Return r) \<or> snd (BatchCreate repo validate ctx s) = s"
    by (rule BatchCreate_all_or_nothing)
  show "(\<exists>r. fst (BatchUpdate repo validate ctx s) = Return r) \<or> snd (BatchUpdate repo validate ctx s) = s"
    by (rule BatchUpdate_all_or_nothing)
  show "(\<exists>r. fst (BatchDelete repo ctx s) = Return r) \<or> snd (BatchDelete repo ctx s) = s"
    by (rule BatchDelete_all_or_nothing)
next
  fix pre entity post err
  assume h: "BindEntities ctx = Inr (pre @ entity # post) \<and> list_all (\<lambda>x. validate x = None) pre
    \<and> validate entity = Some err"
  then have v: "validate_each validate (pre @ entity # post) = Some err"
    by (simp add: validate_each_first_failure)
  from h v show "BatchCreate repo validate ctx s = (Fail err, s)" by (simp add: BatchCreate_def)
  from h v show "BatchUpdate repo validate ctx s = (Fail err, s)" by (simp add: BatchUpdate_def)
next
  fix entities err entities' t
  assume "BindEntities ctx = Inr entities \<and> validate_each validate entities = None
    \<and> Repository_BatchCreate repo entities s = ((Some err, entities'), t)"
  then show "BatchCreate repo validate ctx s = (Fail err, s)"
    by (simp add: BatchCreate_def Transaction_error)
next
  fix entities err entities' t
  assume "BindEntities ctx = Inr entities \<and> validate_each validate entities = None
    \<and> Repository_BatchUpdate repo entities s = ((Some err, entities'), t)"
  then show "BatchUpdate repo validate ctx s = (Fail err, s)"
    by (simp add: BatchUpdate_def Transaction_error)
next
  fix ids err t
  assume "BindIDs ctx = Inr ids \<and> ids \<noteq> [] \<and> Repository_BatchDelete repo ids s = (Some err, t)"
  then show "BatchDelete repo ctx s = (Fail err, s)"
    by (simp add: BatchDelete_def Transaction_def)
qed

text \<open>Three entities of which the second has no name: nothing is stored. Two entities with
  the same identifier: the repository has stored the first when it fails on the second,
  and the transaction undoes it.\<close>

theorem batch_aborts_as_a_whole_witness:
  "BatchCreate mem_repo name_required ((request [])\<lparr>BindEntities := Inr three_entities\<rparr>) []
     = (Fail (CollaboratorError ''name is required''), [])
   \<and> fst (Repository_BatchCreate mem_repo clashing_entities [])
       = (Some (CollaboratorError ''duplicate key''), clashing_entities)
   \<and> snd (Repository_BatchCreate mem_repo clashing_entities []) = [\<lparr>ID = Uint64 1, Fields = ''ann''\<rparr>]
   \<and> BatchCreate mem_repo name_required ((request [])\<lparr>BindEntities := Inr clashing_entities\<rparr>) []
       = (Fail (CollaboratorError ''duplicate key''), [])"
proof -
  let ?ctx = "(request [])\<lparr>BindEntities := Inr three_entities\<rparr> :: string Context"
  have a: "BindEntities ?ctx = Inr ([\<lparr>ID = Uint64 1, Fields = ''ann''\<rparr>] @ \<lparr>ID = Uint64 2, Fields = []\<rparr>
      # [\<lparr>ID = Uint64 3, Fields = ''cy''\<rparr>])
      \<and> list_all (\<lambda>x. name_required x = None) [\<lparr>ID = Uint64 1, Fields = ''ann''\<rparr>]
      \<and> name_required \<lparr>ID = Uint64 2, Fields = []\<rparr> = Some (CollaboratorError ''name is required'')"
    by (simp add: request_def three_entities_def name_required_def)
  have first: "BatchCreate mem_repo name_required ?ctx [] = (Fail (CollaboratorError ''name is required''), [])"
    using batch_aborts_as_a_whole[of mem_repo name_required ?ctx "[]"] a by blast
  let ?ctx2 = "(request [])\<lparr>BindEntities := Inr clashing_entities\<rparr> :: string Context"
  have r: "Repository_BatchCreate mem_repo clashing_entities []
      = ((Some (CollaboratorError ''duplicate key''), clashing_entities), [\<lparr>ID = Uint64 1, Fields = ''ann''\<rparr>])"
    by (simp add: mem_repo_def clashing_entities_def)
  have b: "BindEntities ?ctx2 = Inr clashing_entities \<and> validate_each name_required clashing_entities = None
      \<and> Repository_BatchCreate mem_repo clashing_entities []
        = ((Some (CollaboratorError ''duplicate key''), clashing_entities), [\<lparr>ID = Uint64 1, Fields = ''ann''\<rparr>])"
    using r by (simp add: request_def clashing_entities_def name_required_def)
  have second: "BatchCreate mem_repo name_required ?ctx2 [] = (Fail (CollaboratorError ''duplicate key''), [])"
    using batch_aborts_as_a_whole[of mem_repo name_required ?ctx2 "[]"] b by blast
  from first second r show ?thesis by simp
qed

lemma empty_batch_reaches_repository:
  "BindEntities ctx = Inr [] \<Longrightarrow>
     BatchCreate repo validate ctx s =
       (case Transaction (Repository_BatchCreate repo []) s of
          ((Some err, entities'), s') \<Rightarrow> (Fail err, s')
        | ((None, entities'), s') \<Rightarrow> (Return (Success (Many entities')), s'))
     \<and> BatchUpdate repo validate ctx s =
       (case Transaction (Repository_BatchUpdate repo []) s of
          ((Some err, entities'), s') \<Rightarrow> (Fail err, s')
        | ((None, entities'), s') \<Rightarrow> (Return (Success (Many entities')), s'))"
  by (simp add: BatchCreate_def BatchUpdate_def)

text \<open>
  Claim C9 says that every batch operation answers an empty batch with an InvalidParameter
  error. \<^verbatim>\<open>BatchDelete\<close> does, by its check of \<^verbatim>\<open>len(ids) == 0\<close>; \<^verbatim>\<open>BatchCreate\<close>
  and \<^verbatim>\<open>BatchUpdate\<close> have no such check and hand the empty list to the repository
  (\<open>empty_batch_reaches_repository\<close>), so with a repository that accepts it they return
  success.
\<close>

theorem BatchCreate_BatchUpdate_accept_empty_batch:
  "BatchCreate mem_repo validate ((request [])\<lparr>BindEntities := Inr []\<rparr>) store
     = (Return (Success (Many [])), store)
   \<and> BatchUpdate mem_repo validate ((request [])\<lparr>BindEntities := Inr []\<rparr>) store
     = (Return (Success (Many [])), store)
   \<and> BatchDelete mem_repo ((request [])\<lparr>BindIDs := Inr []\<rparr>) store
     = (Fail (AppError ErrInvalidParam ''no ids provided''), store)"
  by (simp add: BatchCreate_def BatchUpdate_def BatchDelete_def request_def mem_repo_def Transaction_def)

section \<open>Properties of the schema generator\<close>

subsection \<open>The loop over the fields\<close>

lemma fields_step:
  "generateSchema_fields (f # fs) props req =
     generateSchema_fields fs (props ++ field_properties f)
       (req @ map resolved_name (filter required_field [f]))"
  by (cases f) (simp add: field_properties_def required_field_def)

lemma fields_required:
  "snd (generateSchema_fields fs props req) = req @ map resolved_name (filter required_field fs)"
proof (induction fs arbitrary: props req)
  case Nil
  then show ?case by simp
next
  case (Cons f fs)
  show ?case unfolding fields_step Cons.IH by simp
qed

lemma fields_properties:
  "fst (generateSchema_fields fs props req) = foldl (\<lambda>m f. m ++ field_properties f) props fs"
proof (induction fs arbitrary: props req)
  case Nil
  then show ?case by simp
next
  case (Cons f fs)
  show ?case unfolding fields_step Cons.IH by simp
qed

lemma struct_required:
  "Schema_Required (generateSchema (StructOf m s fs)) = map resolved_name (filter required_field fs)"
  using fields_required[of fs Map.empty "[]"]
  by (cases "generateSchema_fields fs Map.empty []") simp

lemma pointer_to_struct:
  "generateSchema (PtrTo n (StructOf m s fs)) = generateSchema (StructOf m s fs)"
  by simp

lemma struct_properties:
  "Schema_Properties (generateSchema (StructOf m s fs)) = foldl (\<lambda>m f. m ++ field_properties f) Map.empty fs"
  using fields_properties[of fs Map.empty "[]"]
  by (cases "generateSchema_fields fs Map.empty []") simp

lemma last_writer:
  "foldl (\<lambda>m x. m ++ w x) m0 xs k =
     (case find (\<lambda>x. w x k \<noteq> None) (rev xs) of None \<Rightarrow> m0 k | Some x \<Rightarrow> w x k)"
proof (induction xs rule: rev_induct)
  case Nil
  then show ?case by simp
next
  case (snoc x xs)
  then show ?case by (auto simp: map_add_def split: option.splits)
qed

lemma find_append:
  "find P (xs @ ys) = (case find P xs of Some x \<Rightarrow> Some x | None \<Rightarrow> find P ys)"
  by (induction xs) auto

lemma struct_property:
  "Schema_Properties (generateSchema (StructOf m s fs)) key =
     (case find (\<lambda>f. field_properties f key \<noteq> None) (rev fs) of
        None \<Rightarrow> None
      | Some f \<Rightarrow> field_properties f key)"
  unfolding struct_properties by (simp add: last_writer)

lemma Split_no_sep: "sep \<notin> set s \<Longrightarrow> Split s sep = [s]"
  by (induction s) auto

lemma resolved_name_json [simp]:
  "CHR '','' \<notin> set j \<Longrightarrow> j \<noteq> [] \<Longrightarrow> map_of tag ''json'' = Some j \<Longrightarrow>
     resolved_name (StructField name t tag a) = j"
  by (simp add: resolved_name_def Tag_Get_def Split_no_sep)

subsection \<open>The required list\<close>

text \<open>
  Claim C5 says that every field tagged with the required marker, the fields of an
  embedded struct included, has its resolved name in \<open>required\<close> exactly once. It fails
  three ways: the loop splices the properties of an embedded struct and not its
  \<open>required\<close> list (\<open>id\<close> of \<open>Base\<close> is a property of \<open>Outer\<close> and is not
  required there); two fields that resolve to one name put it there twice; and a field
  skipped by \<^verbatim>\<open>json:"-"\<close> is not there at all.
\<close>

theorem required_counterexample:
  "count_list (Schema_Required (generateSchema Outer_type)) ''id'' = 0
   \<and> Schema_Properties (generateSchema Outer_type) ''id'' \<noteq> None
   \<and> count_list (Schema_Required (generateSchema Twice_type)) ''name'' = 2
   \<and> count_list (Schema_Required (generateSchema Hidden_type)) ''Secret'' = 0"
  by (simp add: Outer_type_def Base_type_def Twice_type_def Hidden_type_def Tag_Get_def resolved_name_def)

text \<open>
  Claim C5 as amended: the \<open>required\<close> list of a struct's schema is the list, in
  declaration order, of the resolved names of the struct's own named fields that are not
  skipped and carry the required marker. So each such field's resolved name is in the
  list, a name is there as many times as such fields resolve to it (once when no two do),
  and reordering the fields reorders the list without changing how often a name occurs.
\<close>

theorem required_lists_own_named_fields:
  "Schema_Required (generateSchema (StructOf m s fs)) = map resolved_name (filter required_field fs)
   \<and> (\<forall>name. count_list (Schema_Required (generateSchema (StructOf m s fs))) name
         = length (filter (\<lambda>f. required_field f \<and> resolved_name f = name) fs))
   \<and> (\<forall>f. f \<in> set fs \<and> required_field f
         \<longrightarrow> resolved_name f \<in> set (Schema_Required (generateSchema (StructOf m s fs))))
   \<and> (\<forall>fs'. mset fs' = mset fs
         \<longrightarrow> mset (Schema_Required (generateSchema (StructOf m s fs')))
             = mset (Schema_Required (generateSchema (StructOf m s fs))))"
proof (intro conjI allI impI)
  show eq: "Schema_Required (generateSchema (StructOf m s fs)) = map resolved_name (filter required_field fs)"
    by (rule struct_required)
  show "count_list (Schema_Required (generateSchema (StructOf m s fs))) name
         = length (filter (\<lambda>f. required_field f \<and> resolved_name f = name) fs)" for name
    unfolding struct_required by (induction fs) auto
  show "resolved_name f \<in> set (Schema_Required (generateSchema (StructOf m s fs)))"
    if "f \<in> set fs \<and> required_field f" for f
    unfolding struct_required using that by auto
  show "mset (Schema_Required (generateSchema (StructOf m s fs')))
             = mset (Schema_Required (generateSchema (StructOf m s fs)))" if "mset fs' = mset fs" for fs'
    unfolding struct_required using that by simp
qed

text \<open>\<open>Twice\<close> has two required fields named \<open>name\<close>; \<open>Outer\<close> embeds \<open>Base\<close> and has
  one required field of its own.\<close>

theorem required_lists_own_named_fields_witness:
  "Schema_Required (generateSchema Twice_type) = [''name'', ''name'']
   \<and> Schema_Required (generateSchema Outer_type) = [''name'']
   \<and> ''name'' \<in> set (Schema_Required (generateSchema Outer_type))"
  using required_lists_own_named_fields[of "''Twice''" "''main.Twice''"
      "[StructField ''First'' (Basic reflect_String ''string'') [(''json'', ''name''), (''binding'', ''required'')] False,
        StructField ''Second'' (Basic reflect_String ''string'') [(''json'', ''name''), (''binding'', ''required'')] False]"]
    required_lists_own_named_fields[of "''Outer''" "''main.Outer''"
      "[StructField ''Base'' Base_type [] True,
        StructField ''Name'' (Basic reflect_String ''string'') [(''json'', ''name''), (''binding'', ''required'')] False]"]
  by (simp add: Twice_type_def Outer_type_def required_field_def Tag_Get_def resolved_name_def)

subsection \<open>Embedded fields\<close>

text \<open>
  Claim C6 says that the properties of an embedded field appear in the parent's
  \<open>properties\<close>, that collisions are resolved by the last writer in declaration order,
  and that the embedded field's own name never appears as a property key. The last part
  fails when a property of that name comes from elsewhere: \<open>Order\<close> embeds \<open>Status\<close>,
  whose own field is called \<open>Status\<close>, and \<open>Tagged\<close> embeds \<open>Base\<close> next to a field
  tagged \<^verbatim>\<open>json:"Base"\<close>.
\<close>

theorem embedded_name_counterexample:
  "Field_Anonymous (StructField ''Status'' Status_type [] True)
   \<and> Schema_Properties (generateSchema Order_type) ''Status'' \<noteq> None
   \<and> Field_Anonymous (StructField ''Base'' Base_type [] True)
   \<and> Schema_Properties (generateSchema Tagged_type) ''Base'' \<noteq> None"
  by (simp add: Order_type_def Status_type_def Tagged_type_def Base_type_def Tag_Get_def resolved_name_def)

text \<open>
  Claim C6 as amended. For a struct with an embedded field: every property of the struct
  is the one written by the last field, in declaration order, that contributes a property
  under that key; the embedded field contributes the properties of its type and nothing
  under its own name; each of its properties is a key of the parent, with the embedded
  field's schema unless a later field writes that key; and the embedded field's name is a
  key of the parent only if some field contributes a property of that name.
\<close>

theorem embedded_properties_spliced:
  assumes "fs = pre @ StructField name t tag True # post"
  shows "(\<forall>key. Schema_Properties (generateSchema (StructOf m s fs)) key =
            (case find (\<lambda>f. field_properties f key \<noteq> None) (rev fs) of
               None \<Rightarrow> None
             | Some f \<Rightarrow> field_properties f key))
         \<and> field_properties (StructField name t tag True) = Schema_Properties (generateSchema t)
         \<and> (\<forall>key. Schema_Properties (generateSchema t) key \<noteq> None
               \<longrightarrow> Schema_Properties (generateSchema (StructOf m s fs)) key \<noteq> None)
         \<and> (\<forall>key. list_all (\<lambda>f. field_properties f key = None) post
               \<longrightarrow> Schema_Properties (generateSchema (StructOf m s fs)) key
                     = (case Schema_Properties (generateSchema t) key of
                          Some schema \<Rightarrow> Some schema
                        | None \<Rightarrow> Schema_Properties (generateSchema (StructOf m s pre)) key))
         \<and> (list_all (\<lambda>f. field_properties f name = None) fs
               \<longrightarrow> Schema_Properties (generateSchema (StructOf m s fs)) name = None)"
proof (intro conjI allI impI)
  show "Schema_Properties (generateSchema (StructOf m s fs)) key =
            (case find (\<lambda>f. field_properties f key \<noteq> None) (rev fs) of
               None \<Rightarrow> None
             | Some f \<Rightarrow> field_properties f key)" for key
    by (rule struct_property)
  show emb: "field_properties (StructField name t tag True) = Schema_Properties (generateSchema t)"
    by (simp add: field_properties_def)
  show "Schema_Properties (generateSchema (StructOf m s fs)) key \<noteq> None"
    if "Schema_Properties (generateSchema t) key \<noteq> None" for key
  proof -
    have "\<exists>f\<in>set (rev fs). field_properties f key \<noteq> None"
      using that emb assms by auto
    then obtain f where "find (\<lambda>f. field_properties f key \<noteq> None) (rev fs) = Some f"
      by (cases "find (\<lambda>f. field_properties f key \<noteq> None) (rev fs)") (auto simp: find_None_iff)
    moreover from this have "field_properties f key \<noteq> None"
      by (auto dest: find_Some_iff[THEN iffD1])
    ultimately show ?thesis unfolding struct_property by simp
  qed
  show "Schema_Properties (generateSchema (StructOf m s fs)) key
          = (case Schema_Properties (generateSchema t) key of
               Some schema \<Rightarrow> Some schema
             | None \<Rightarrow> Schema_Properties (generateSchema (StructOf m s pre)) key)"
    if "list_all (\<lambda>f. field_properties f key = None) post" for key
  proof -
    from that have "find (\<lambda>f. field_properties f key \<noteq> None) (rev post) = None"
      by (auto simp: find_None_iff list_all_iff)
    then show ?thesis
      unfolding struct_property assms by (auto simp: find_append emb split: option.splits)
  qed
  show "Schema_Properties (generateSchema (StructOf m s fs)) name = None"
    if "list_all (\<lambda>f. field_properties f name = None) fs"
  proof -
    from that have "find (\<lambda>f. field_properties f name \<noteq> None) (rev fs) = None"
      by (auto simp: find_None_iff list_all_iff)
    then show ?thesis unfolding struct_property by simp
  qed
qed

text \<open>\<open>Outer\<close> has the property \<open>id\<close> of the embedded \<open>Base\<close> and no property \<open>Base\<close>;
  in \<open>Shadow\<close> the later field tagged \<open>id\<close> overwrites the embedded one.\<close>

theorem embedded_properties_spliced_witness:
  "Schema_Properties (generateSchema Outer_type) ''id''
     = Some (Schema [] [] [''integer''] ''int64'' [] None Map.empty [])
   \<and> Schema_Properties (generateSchema Outer_type) ''Base'' = None
   \<and> Schema_Properties (generateSchema Shadow_type) ''id''
     = Some (Schema [] [] [''string''] [] [] None Map.empty [])"
  using embedded_properties_spliced[of
      "[StructField ''Base'' Base_type [] True,
        StructField ''Name'' (Basic reflect_String ''string'') [(''json'', ''name''), (''binding'', ''required'')] False]"
      "[]" "''Base''" Base_type "[]"
      "[StructField ''Name'' (Basic reflect_String ''string'') [(''json'', ''name''), (''binding'', ''required'')] False]"
      "''Outer''" "''main.Outer''"]
  by (simp add: Outer_type_def Shadow_type_def Base_type_def Tag_Get_def resolved_name_def
      field_properties_def)

section \<open>Properties of the document assembly\<close>

lemma collect_route_samples:
  "collect_route entityName definitions route = foldl (add_sample entityName) definitions (sample_types route)"
  by (simp add: collect_route_def collect_sample_def sample_types_def add_sample_def
      split: option.splits)

lemma collect_routes_samples:
  "foldl (collect_route entityName) definitions routes
     = foldl (add_sample entityName) definitions (concat (map sample_types routes))"
  by (induction routes arbitrary: definitions) (simp_all add: collect_route_samples)

lemma collect_definitions_samples:
  "collect_definitions entityName (group_routes routePath allRoutes) order definitions
     = foldl (add_sample entityName) definitions (visited_samples routePath allRoutes order)"
proof (induction order arbitrary: definitions)
  case Nil
  show ?case by (simp add: collect_definitions_def visited_samples_def)
next
  case (Cons path order)
  then show ?case
    by (simp add: collect_definitions_def visited_samples_def collect_routes_samples
        split: option.splits)
qed

lemma add_samples_lookup:
  "foldl (add_sample entityName) definitions ts name =
     (if name = [] \<or> name = entityName then definitions name
      else (case find (\<lambda>t. Type_Name t = name) (rev ts) of
              None \<Rightarrow> definitions name
            | Some t \<Rightarrow> Some (generateSchema t)))"
proof (induction ts rule: rev_induct)
  case Nil
  show ?case by simp
next
  case (snoc t ts)
  then show ?case by (auto simp: add_sample_def)
qed

lemma route_path_items: "route_path ''items'' \<lparr> Route_Path = [], Route_Method = m, Route_Tags = ts,
    Route_Summary = sm, Route_Description = d, Route_Request = rq, Route_Response = rs \<rparr> = ''/items''"
  by (simp add: route_path_def)

lemma group_item_routes: "group_routes ''items'' item_routes = [''/items'' \<mapsto> item_routes]"
  by (simp add: group_routes_def item_routes_def route_path_items)

lemma Type_Name_Item: "Type_Name Item_type = ''Item''"
  by (simp add: Item_type_def)

lemma visited_item_samples:
  "visited_samples ''items'' item_routes [''/items''] = [Request1_type, Request2_type]"
  by (simp add: visited_samples_def group_item_routes)
    (simp add: item_routes_def sample_types_def Request1_type_def)

text \<open>
  Claim C7 says that \<open>definitions\<close> is seeded with the entity's schema under its type
  name and that, among sample types of one name, the first occurrence's schema wins. The
  loop assigns \<^verbatim>\<open>definitions[reqName]\<close> without looking whether the name is there, so the
  last occurrence wins: of the two request types called \<open>Request\<close> of the routes of
  \<open>Item\<close>, both in the path group \<open>/items\<close>, the definition is the schema of the second.
\<close>

theorem definitions_first_sample_counterexample:
  "iteration_order (group_routes ''items'' item_routes) [''/items'']
   \<and> map (map_option Type_Name \<circ> Route_Request) item_routes = [Some ''Request'', Some []]
   \<and> (case GetSwagger item_generator ''items_v1'' of
         None \<Rightarrow> None
       | Some swagger \<Rightarrow> Swagger_Definitions swagger ''Request'') = Some (generateSchema Request2_type)
   \<and> Schema_Properties (generateSchema Request1_type) ''Name'' \<noteq> None
   \<and> Schema_Properties (generateSchema Request2_type) ''Name'' = None"
proof -
  have "iteration_order (group_routes ''items'' item_routes) [''/items'']"
    by (simp add: group_item_routes iteration_order_def)
  moreover have "map (map_option Type_Name \<circ> Route_Request) item_routes = [Some ''Request'', Some []]"
    by (simp add: item_routes_def Request1_type_def Request2_type_def)
  moreover have "(case GetSwagger item_generator ''items_v1'' of
         None \<Rightarrow> None
       | Some swagger \<Rightarrow> Swagger_Definitions swagger ''Request'') = Some (generateSchema Request2_type)"
    apply (simp add: item_generator_def GetSwagger_def RegisterEntityWithVersion_def Let_def
        NewGenerator_def group_item_routes collect_definitions_def)
    apply (simp add: item_routes_def collect_route_def collect_sample_def Request1_type_def
        Request2_type_def Item_type_def Tag_Get_def resolved_name_def)
    done
  moreover have "Schema_Properties (generateSchema Request1_type) ''Name'' \<noteq> None"
    "Schema_Properties (generateSchema Request2_type) ''Name'' = None"
    by (simp_all add: Request1_type_def Request2_type_def resolved_name_def Tag_Get_def)
  ultimately show ?thesis by blast
qed

text \<open>
  Claim C7 as amended: the document stored by \<^verbatim>\<open>RegisterEntityWithVersion\<close> defines the
  entity's type name as the entity's schema, and every other non-empty name as the schema
  of the last sample type of that name that the loop visits (no definition when there is
  none); a sample type called like the entity never replaces the entity's schema.
\<close>

theorem definitions_last_sample_wins:
  "\<exists>swagger.
     GetSwagger (RegisterEntityWithVersion g entityType basePath routePath controller version order)
        (routePath @ ''_'' @ version) = Some swagger
     \<and> Swagger_Definitions swagger (Type_Name (Elem_if_Ptr entityType))
         = Some (generateSchema (Elem_if_Ptr entityType))
     \<and> (\<forall>name. name \<noteq> Type_Name (Elem_if_Ptr entityType) \<longrightarrow>
           Swagger_Definitions swagger name =
             (if name = [] then None
              else (case find (\<lambda>t. Type_Name t = name)
                           (rev (visited_samples routePath
                                   (case controller of Some routes \<Rightarrow> routes | None \<Rightarrow> []) order)) of
                      None \<Rightarrow> None
                    | Some t \<Rightarrow> Some (generateSchema t))))"
  by (auto simp: GetSwagger_def RegisterEntityWithVersion_def Let_def collect_definitions_samples
      add_samples_lookup split: option.splits)

text \<open>The registration of \<open>Item\<close>: its definition is the seed, and a name no sample has is
  not defined.\<close>

theorem definitions_last_sample_wins_witness:
  "(case GetSwagger item_generator ''items_v1'' of
      None \<Rightarrow> None
    | Some swagger \<Rightarrow> Swagger_Definitions swagger ''Item'') = Some (generateSchema Item_type)
   \<and> (case GetSwagger item_generator ''items_v1'' of
         None \<Rightarrow> None
       | Some swagger \<Rightarrow> Swagger_Definitions swagger ''Other'') = None"
proof -
  from definitions_last_sample_wins[of NewGenerator "PtrTo [] Item_type" "''/api/v1''" "''items''"
      "Some item_routes" "''v1''" "[''/items'']"]
  obtain swagger where s: "GetSwagger item_generator ''items_v1'' = Some swagger"
    and seed: "Swagger_Definitions swagger ''Item'' = Some (generateSchema Item_type)"
    and rest: "\<forall>name. name \<noteq> ''Item'' \<longrightarrow>
           Swagger_Definitions swagger name =
             (if name = [] then None
              else (case find (\<lambda>t. Type_Name t = name) (rev [Request1_type, Request2_type]) of
                      None \<Rightarrow> None
                    | Some t \<Rightarrow> Some (generateSchema t)))"
    unfolding item_generator_def by (auto simp: Type_Name_Item visited_item_samples)
  from rest have "Swagger_Definitions swagger ''Other'' = None"
    by (simp add: Request1_type_def Request2_type_def)
  with s seed show ?thesis by simp
qed

section \<open>Properties of the merged documents\<close>

lemma registered_one_tag:
  "registered g \<Longrightarrow> docs g path = Some swagger \<Longrightarrow> \<exists>tag. Swagger_Tags swagger = [tag]"
proof (induction arbitrary: path swagger rule: registered.induct)
  case registered_new
  then show ?case by (simp add: NewGenerator_def)
next
  case (registered_entity g entityType basePath routePath controller version order)
  then show ?case
    by (auto simp: RegisterEntityWithVersion_def Let_def split: if_splits)
qed

lemma GetAllSwagger_step_lookup:
  "GetAllSwagger_step g versionDocs path version =
     (case docs g path of
        None \<Rightarrow> versionDocs version
      | Some swagger \<Rightarrow>
          if version_of path = Some version
          then Some (merge_version_doc
                 (case versionDocs version of None \<Rightarrow> new_version_doc version | Some d \<Rightarrow> d) swagger)
          else versionDocs version)"
  by (auto simp: GetAllSwagger_step_def version_of_def Let_def split: option.splits)

lemma GetAllSwagger_fold:
  "foldl (GetAllSwagger_step g) versionDocs order version =
     (case version_group g order version of
        [] \<Rightarrow> versionDocs version
      | d # ds \<Rightarrow>
          Some (foldl merge_version_doc
                  (case versionDocs version of None \<Rightarrow> new_version_doc version | Some x \<Rightarrow> x) (d # ds)))"
proof (induction order arbitrary: versionDocs)
  case Nil
  show ?case by (simp add: version_group_def)
next
  case (Cons path order)
  have vg: "version_group g (path # order) version =
      (case docs g path of None \<Rightarrow> [] | Some swagger \<Rightarrow> if version_of path = Some version then [swagger] else [])
      @ version_group g order version"
    by (simp add: version_group_def)
  have "foldl (GetAllSwagger_step g) versionDocs (path # order) version
      = foldl (GetAllSwagger_step g) (GetAllSwagger_step g versionDocs path) order version"
    by simp
  also have "\<dots> =
     (case version_group g order version of
        [] \<Rightarrow> GetAllSwagger_step g versionDocs path version
      | d # ds \<Rightarrow>
          Some (foldl merge_version_doc
                  (case GetAllSwagger_step g versionDocs path version of
                     None \<Rightarrow> new_version_doc version | Some x \<Rightarrow> x) (d # ds)))"
    by (rule Cons.IH)
  also have "\<dots> =
     (case version_group g (path # order) version of
        [] \<Rightarrow> versionDocs version
      | d # ds \<Rightarrow>
          Some (foldl merge_version_doc
                  (case versionDocs version of None \<Rightarrow> new_version_doc version | Some x \<Rightarrow> x) (d # ds)))"
    unfolding vg GetAllSwagger_step_lookup[of g versionDocs path version]
    by (auto split: option.splits list.splits)
  finally show ?case .
qed

lemma GetAllSwagger_group:
  "GetAllSwagger g order version =
     (case version_group g order version of
        [] \<Rightarrow> None
      | d # ds \<Rightarrow> Some (foldl merge_version_doc (new_version_doc version) (d # ds)))"
  by (simp add: GetAllSwagger_def GetAllSwagger_fold split: list.splits)

lemma merged_paths:
  "Swagger_Paths (foldl merge_version_doc d0 ds) = foldl (\<lambda>m d. m ++ Swagger_Paths d) (Swagger_Paths d0) ds"
  by (induction ds arbitrary: d0) (simp_all add: merge_version_doc_def)

lemma merged_definitions:
  "Swagger_Definitions (foldl merge_version_doc d0 ds) name =
     (case Swagger_Definitions d0 name of
        Some schema \<Rightarrow> Some schema
      | None \<Rightarrow> first_writer_of Swagger_Definitions ds name)"
  by (induction ds arbitrary: d0)
    (auto simp: merge_version_doc_def first_writer_of_def split: option.splits)

lemma merged_rest:
  "Swagger_BasePath (foldl merge_version_doc d0 ds) = Swagger_BasePath d0
   \<and> Swagger_Info (foldl merge_version_doc d0 ds) = Swagger_Info d0
   \<and> Swagger_Swagger (foldl merge_version_doc d0 ds) = Swagger_Swagger d0
   \<and> Swagger_Schemes (foldl merge_version_doc d0 ds) = Swagger_Schemes d0
   \<and> Swagger_Consumes (foldl merge_version_doc d0 ds) = Swagger_Consumes d0
   \<and> Swagger_Produces (foldl merge_version_doc d0 ds) = Swagger_Produces d0
   \<and> Swagger_Host (foldl merge_version_doc d0 ds) = Swagger_Host d0"
  by (induction ds arbitrary: d0) (simp_all add: merge_version_doc_def)

lemma first_by_name_append:
  "first_by_name seen (xs @ ys) = first_by_name seen xs @ first_by_name (seen \<union> Tag_Name ` set xs) ys"
proof (induction xs arbitrary: seen)
  case Nil
  show ?case by simp
next
  case (Cons x xs)
  show ?case
  proof (cases "Tag_Name x \<in> seen")
    case True
    then have "seen \<union> Tag_Name ` set (x # xs) = seen \<union> Tag_Name ` set xs" by auto
    with True Cons.IH[of seen] show ?thesis by simp
  next
    case False
    have "insert (Tag_Name x) seen \<union> Tag_Name ` set xs = seen \<union> Tag_Name ` set (x # xs)" by auto
    with False Cons.IH[of "insert (Tag_Name x) seen"] show ?thesis by simp
  qed
qed

lemma first_by_name_names:
  "Tag_Name ` set (first_by_name seen xs) = Tag_Name ` set xs - seen"
  by (induction xs arbitrary: seen) auto

lemma filter_is_first_by_name:
  "distinct (map Tag_Name xs) \<Longrightarrow>
     filter (\<lambda>tag. Tag_Name tag \<notin> seen) xs = first_by_name seen xs"
proof (induction xs arbitrary: seen)
  case Nil
  show ?case by simp
next
  case (Cons x xs)
  from Cons.prems have d: "distinct (map Tag_Name xs)"
    and nx: "\<forall>y\<in>set xs. Tag_Name y \<noteq> Tag_Name x"
    by (auto simp: image_iff)
  have eq: "filter (\<lambda>tag. Tag_Name tag \<notin> seen) xs
      = filter (\<lambda>tag. Tag_Name tag \<notin> insert (Tag_Name x) seen) xs"
    using nx by (intro filter_cong) auto
  show ?case
  proof (cases "Tag_Name x \<in> seen")
    case True
    then show ?thesis using Cons.IH[OF d, of seen] by simp
  next
    case False
    then have "filter (\<lambda>tag. Tag_Name tag \<notin> seen) (x # xs)
        = x # filter (\<lambda>tag. Tag_Name tag \<notin> insert (Tag_Name x) seen) xs"
      using eq by simp
    also have "\<dots> = x # first_by_name (insert (Tag_Name x) seen) xs"
      by (simp only: Cons.IH[OF d])
    finally show ?thesis using False by simp
  qed
qed

lemma merge_version_tags:
  "Swagger_Tags (merge_version_doc versionDoc swagger) =
     Swagger_Tags versionDoc
     @ filter (\<lambda>tag. Tag_Name tag \<notin> set (map Tag_Name (Swagger_Tags versionDoc)))
         (Swagger_Tags swagger)"
  by (simp add: merge_version_doc_def)

lemma merged_tags:
  assumes "\<forall>d\<in>set ds. distinct (map Tag_Name (Swagger_Tags d))" and "Swagger_Tags d0 = []"
  shows "Swagger_Tags (foldl merge_version_doc d0 ds) = first_by_name {} (concat (map Swagger_Tags ds))"
  using assms(1)
proof (induction ds rule: rev_induct)
  case Nil
  show ?case by (simp add: assms(2))
next
  case (snoc d ds)
  then have IH: "Swagger_Tags (foldl merge_version_doc d0 ds) = first_by_name {} (concat (map Swagger_Tags ds))"
    and dd: "distinct (map Tag_Name (Swagger_Tags d))" by auto
  have names: "set (map Tag_Name (first_by_name {} (concat (map Swagger_Tags ds))))
      = Tag_Name ` set (concat (map Swagger_Tags ds))"
    using first_by_name_names[of "{}" "concat (map Swagger_Tags ds)"] by simp
  have "Swagger_Tags (foldl merge_version_doc d0 (ds @ [d]))
      = Swagger_Tags (merge_version_doc (foldl merge_version_doc d0 ds) d)"
    by simp
  also have "\<dots> = first_by_name {} (concat (map Swagger_Tags ds))
      @ filter (\<lambda>tag. Tag_Name tag \<notin> Tag_Name ` set (concat (map Swagger_Tags ds))) (Swagger_Tags d)"
    unfolding merge_version_tags IH names ..
  also have "\<dots> = first_by_name {} (concat (map Swagger_Tags (ds @ [d])))"
    by (simp add: first_by_name_append filter_is_first_by_name[OF dd] del: set_concat)
  finally show ?case .
qed

lemma find_Some_holds: "find P xs = Some x \<Longrightarrow> P x \<and> x \<in> set xs"
  by (induction xs) (auto split: if_splits)

lemma last_writer_of_defined:
  "(last_writer_of table ds key \<noteq> None) = (\<exists>d\<in>set ds. table d key \<noteq> None)"
proof (cases "find (\<lambda>d. table d key \<noteq> None) (rev ds)")
  case None
  then have "\<forall>d\<in>set ds. table d key = None" by (auto simp: find_None_iff)
  then show ?thesis unfolding last_writer_of_def None by auto
next
  case (Some d)
  from find_Some_holds[OF Some] Some show ?thesis by (auto simp: last_writer_of_def)
qed

lemma first_writer_of_defined:
  "(first_writer_of table ds key \<noteq> None) = (\<exists>d\<in>set ds. table d key \<noteq> None)"
proof (cases "find (\<lambda>d. table d key \<noteq> None) ds")
  case None
  then have "\<forall>d\<in>set ds. table d key = None" by (auto simp: find_None_iff)
  then show ?thesis unfolding first_writer_of_def None by auto
next
  case (Some d)
  from find_Some_holds[OF Some] Some show ?thesis by (auto simp: first_writer_of_def)
qed

lemma first_writer_of_only:
  assumes "d \<in> set ds" and "table d key = Some v"
    and "\<forall>other\<in>set ds. other = d \<or> table other key = None"
  shows "first_writer_of table ds key = Some v"
proof (cases "find (\<lambda>d. table d key \<noteq> None) ds")
  case None
  with assms(1,2) show ?thesis by (auto simp: find_None_iff)
next
  case (Some d')
  from find_Some_holds[OF Some] assms(3) have "d' = d" by auto
  with Some assms(2) show ?thesis by (simp add: first_writer_of_def)
qed

lemma writers_agree:
  assumes "\<forall>x\<in>set ds. \<forall>y\<in>set ds. \<forall>v w. table x key = Some v \<and> table y key = Some w \<longrightarrow> v = w"
  shows "first_writer_of table ds key = last_writer_of table ds key"
proof (cases "find (\<lambda>d. table d key \<noteq> None) ds")
  case None
  then have "find (\<lambda>d. table d key \<noteq> None) (rev ds) = None" by (auto simp: find_None_iff)
  with None show ?thesis by (simp add: first_writer_of_def last_writer_of_def)
next
  case (Some x)
  then obtain y where y: "find (\<lambda>d. table d key \<noteq> None) (rev ds) = Some y"
    by (cases "find (\<lambda>d. table d key \<noteq> None) (rev ds)") (auto simp: find_None_iff dest: find_Some_holds)
  from find_Some_holds[OF Some] find_Some_holds[OF y] assms have "table x key = table y key"
    by auto
  with Some y show ?thesis by (simp add: first_writer_of_def last_writer_of_def)
qed

lemma first_by_name_distinct:
  "distinct (map Tag_Name xs) \<Longrightarrow> \<forall>x\<in>set xs. Tag_Name x \<notin> seen \<Longrightarrow> first_by_name seen xs = xs"
proof (induction xs arbitrary: seen)
  case Nil
  show ?case by simp
next
  case (Cons a xs)
  from Cons.prems have "distinct (map Tag_Name xs)"
    and "\<forall>x\<in>set xs. Tag_Name x \<notin> insert (Tag_Name a) seen"
    by (auto simp: image_iff)
  from Cons.IH[OF this] Cons.prems(2) show ?case by simp
qed

lemma distinct_concat_each:
  "distinct (map f (concat xss)) \<Longrightarrow> \<forall>xs\<in>set xss. distinct (map f xs)"
  by (induction xss) auto

lemma Split_nonempty: "Split s sep \<noteq> []"
  by (induction s) auto

lemma Split_append:
  "Split (a @ sep # b) sep = Split a sep @ Split b sep"
proof (induction a)
  case Nil
  show ?case by simp
next
  case (Cons c a)
  from Split_nonempty[of a sep] obtain p ps where "Split a sep = p # ps"
    by (cases "Split a sep") auto
  with Cons show ?case by simp
qed

lemma version_of_registration_key:
  "CHR ''_'' \<notin> set version \<Longrightarrow> version_of (routePath @ ''_'' @ version) = Some version"
  using Split_nonempty[of routePath "CHR ''_''"]
  by (cases "Split routePath CHR ''_''") (auto simp: version_of_def Split_append Split_no_sep)

lemma version_group_set:
  "iteration_order (docs g) order \<Longrightarrow>
     set (version_group g order version)
       = {swagger. \<exists>path. docs g path = Some swagger \<and> version_of path = Some version}"
  by (auto simp: version_group_def iteration_order_def split: option.splits if_splits)

lemma mergeSwaggers_paths:
  "Swagger_Paths (foldl (mergeSwaggers_step g) m0 order)
     = foldl (\<lambda>m d. m ++ Swagger_Paths d) (Swagger_Paths m0) (all_docs g order)"
  by (induction order arbitrary: m0)
    (auto simp: all_docs_def mergeSwaggers_step_def split: option.splits)

lemma mergeSwaggers_definitions:
  "Swagger_Definitions (foldl (mergeSwaggers_step g) m0 order)
     = foldl (\<lambda>m d. m ++ Swagger_Definitions d) (Swagger_Definitions m0) (all_docs g order)"
  by (induction order arbitrary: m0)
    (auto simp: all_docs_def mergeSwaggers_step_def split: option.splits)

lemma mergeSwaggers_tags:
  "Swagger_Tags (foldl (mergeSwaggers_step g) m0 order)
     = Swagger_Tags m0 @ concat (map Swagger_Tags (all_docs g order))"
  by (induction order arbitrary: m0)
    (auto simp: all_docs_def mergeSwaggers_step_def split: option.splits)

lemma merged_path:
  "Swagger_Paths (foldl merge_version_doc (new_version_doc version) ds) path
     = last_writer_of Swagger_Paths ds path"
  by (simp add: merged_paths last_writer last_writer_of_def new_version_doc_def)

lemma merged_definition:
  "Swagger_Definitions (foldl merge_version_doc (new_version_doc version) ds) name
     = first_writer_of Swagger_Definitions ds name"
  by (simp add: merged_definitions new_version_doc_def)

lemma registered_shop: "registered shop_generator"
  unfolding shop_generator_def item_generator_def by (intro registered.intros)

lemma registered_twin: "registered twin_generator"
  unfolding twin_generator_def by (intro registered.intros)

lemma docs_register:
  "docs (RegisterEntityWithVersion g entityType basePath routePath controller version order) path
     = (if path = routePath @ ''_'' @ version
        then GetSwagger (RegisterEntityWithVersion g entityType basePath routePath controller version order) path
        else docs g path)"
  by (simp add: RegisterEntityWithVersion_def Let_def GetSwagger_def)

lemma dom_register:
  "dom (docs (RegisterEntityWithVersion g entityType basePath routePath controller version order))
     = insert (routePath @ ''_'' @ version) (dom (docs g))"
  by (simp add: RegisterEntityWithVersion_def Let_def)

lemma shop_order: "iteration_order (docs shop_generator) [''items_v1'', ''orders_v1'']"
  by (auto simp: iteration_order_def shop_generator_def item_generator_def dom_register NewGenerator_def)

lemma twin_order: "iteration_order (docs twin_generator) [''users_v1'', ''members_v1'']"
  by (auto simp: iteration_order_def twin_generator_def dom_register NewGenerator_def)

lemma version_of_keys:
  "version_of ''items_v1'' = Some ''v1''" "version_of ''orders_v1'' = Some ''v1''"
  "version_of ''users_v1'' = Some ''v1''" "version_of ''members_v1'' = Some ''v1''"
  by (simp_all add: version_of_def)

lemma route_path_orders:
  "route_path ''orders'' \<lparr> Route_Path = [], Route_Method = m, Route_Tags = ts,
    Route_Summary = sm, Route_Description = d, Route_Request = rq, Route_Response = rs \<rparr> = ''/orders''"
  "route_path ''orders'' \<lparr> Route_Path = ''/:id'', Route_Method = m, Route_Tags = ts,
    Route_Summary = sm, Route_Description = d, Route_Request = rq, Route_Response = rs \<rparr> = ''/orders/{id}''"
  by (simp_all add: route_path_def)

lemma group_order_routes:
  "group_routes ''orders'' order_routes = [''/orders'' \<mapsto> [order_routes ! 0], ''/orders/{id}'' \<mapsto> [order_routes ! 1]]"
  by (simp add: group_routes_def order_routes_def route_path_orders)

lemma shop_docs:
  "\<exists>items orders. docs shop_generator ''items_v1'' = Some items \<and> docs shop_generator ''orders_v1'' = Some orders
     \<and> map Tag_Name (Swagger_Tags items) = [''Item''] \<and> map Tag_Name (Swagger_Tags orders) = [''Order'']
     \<and> Swagger_Paths orders ''/orders/{id}'' \<noteq> None \<and> Swagger_Paths orders ''/orders'' \<noteq> None
     \<and> Swagger_Paths items ''/items'' \<noteq> None
     \<and> Swagger_Definitions orders ''Order'' = Some (generateSchema Order_type)
     \<and> Swagger_Definitions items ''Order'' = None"
  apply (simp add: shop_generator_def item_generator_def RegisterEntityWithVersion_def Let_def
      NewGenerator_def group_order_routes group_item_routes collect_definitions_def)
  apply (simp add: Item_type_def Order_type_def order_routes_def item_routes_def collect_route_def
      collect_sample_def Request1_type_def Request2_type_def)
  done

lemma twin_docs:
  "\<exists>users members. docs twin_generator ''users_v1'' = Some users
     \<and> docs twin_generator ''members_v1'' = Some members
     \<and> map Tag_Name (Swagger_Tags users) = [''User''] \<and> map Tag_Name (Swagger_Tags members) = [''User'']
     \<and> Swagger_Definitions users ''User'' = Some (generateSchema User1_type)
     \<and> Swagger_Definitions members ''User'' = Some (generateSchema User2_type)"
  by (simp add: twin_generator_def RegisterEntityWithVersion_def Let_def NewGenerator_def
      collect_definitions_def User1_type_def User2_type_def)

lemma names_single: "map Tag_Name xs = [n] \<Longrightarrow> \<exists>tag. xs = [tag] \<and> Tag_Name tag = n"
  by (cases xs) auto

text \<open>
  What \<^verbatim>\<open>GetAllSwagger\<close> answers for a version, in any order in which its loop may visit
  the keys: the documents stored under a key whose part after the last underscore is the
  version are merged, a path shared by several taken from the last writer, a definition
  name shared by several from the first writer, so that a definition whose name no other
  document of the group defines is kept, and the tags with the first tag of each name.
\<close>

lemma merged_version_group:
  assumes "registered g" and "iteration_order (docs g) order"
    and "version_group g order version \<noteq> []"
  shows "\<exists>merged. GetAllSwagger g order version = Some merged
     \<and> set (version_group g order version)
         = {swagger. \<exists>path. docs g path = Some swagger \<and> version_of path = Some version}
     \<and> (\<forall>routePath swagger.
           CHR ''_'' \<notin> set version \<and> docs g (routePath @ ''_'' @ version) = Some swagger
           \<longrightarrow> swagger \<in> set (version_group g order version))
     \<and> (\<forall>path. Swagger_Paths merged path
           = last_writer_of Swagger_Paths (version_group g order version) path)
     \<and> (\<forall>path. (Swagger_Paths merged path \<noteq> None)
           = (\<exists>swagger\<in>set (version_group g order version). Swagger_Paths swagger path \<noteq> None))
     \<and> (\<forall>name. Swagger_Definitions merged name
           = first_writer_of Swagger_Definitions (version_group g order version) name)
     \<and> (\<forall>name. (Swagger_Definitions merged name \<noteq> None)
           = (\<exists>swagger\<in>set (version_group g order version). Swagger_Definitions swagger name \<noteq> None))
     \<and> (\<forall>swagger name schema.
           swagger \<in> set (version_group g order version)
           \<and> Swagger_Definitions swagger name = Some schema
           \<and> (\<forall>other\<in>set (version_group g order version).
                 other = swagger \<or> Swagger_Definitions other name = None)
           \<longrightarrow> Swagger_Definitions merged name = Some schema)
     \<and> Swagger_Tags merged
         = first_by_name {} (concat (map Swagger_Tags (version_group g order version)))"
proof -
  let ?ds = "version_group g order version"
  let ?m = "foldl merge_version_doc (new_version_doc version) ?ds"
  from assms(3) have m: "GetAllSwagger g order version = Some ?m"
    by (cases ?ds) (simp_all add: GetAllSwagger_group)
  have one: "\<forall>d\<in>set ?ds. distinct (map Tag_Name (Swagger_Tags d))"
  proof
    fix d assume "d \<in> set ?ds"
    then obtain path where "docs g path = Some d"
      by (auto simp: version_group_def split: option.splits if_splits)
    from registered_one_tag[OF assms(1) this] show "distinct (map Tag_Name (Swagger_Tags d))"
      by auto
  qed
  have tags: "Swagger_Tags ?m = first_by_name {} (concat (map Swagger_Tags ?ds))"
    by (rule merged_tags[OF one]) (simp add: new_version_doc_def)
  show ?thesis
  proof (intro exI[of _ ?m] conjI allI impI)
    show "GetAllSwagger g order version = Some ?m" by (rule m)
    show "set ?ds = {swagger. \<exists>path. docs g path = Some swagger \<and> version_of path = Some version}"
      by (rule version_group_set[OF assms(2)])
    show "swagger \<in> set ?ds"
      if "CHR ''_'' \<notin> set version \<and> docs g (routePath @ ''_'' @ version) = Some swagger"
      for routePath swagger
      unfolding version_group_set[OF assms(2)]
      using that version_of_registration_key[of version routePath] by auto
    show "Swagger_Paths ?m path = last_writer_of Swagger_Paths ?ds path" for path
      by (rule merged_path)
    show "(Swagger_Paths ?m path \<noteq> None) = (\<exists>swagger\<in>set ?ds. Swagger_Paths swagger path \<noteq> None)" for path
      unfolding merged_path by (rule last_writer_of_defined)
    show "Swagger_Definitions ?m name = first_writer_of Swagger_Definitions ?ds name" for name
      by (rule merged_definition)
    show "(Swagger_Definitions ?m name \<noteq> None)
        = (\<exists>swagger\<in>set ?ds. Swagger_Definitions swagger name \<noteq> None)" for name
      unfolding merged_definition by (rule first_writer_of_defined)
    show "Swagger_Definitions ?m name = Some schema"
      if "swagger \<in> set ?ds \<and> Swagger_Definitions swagger name = Some schema
           \<and> (\<forall>other\<in>set ?ds. other = swagger \<or> Swagger_Definitions other name = None)"
      for swagger name schema
      unfolding merged_definition using that by (intro first_writer_of_only[of swagger]) auto
    show "Swagger_Tags ?m = first_by_name {} (concat (map Swagger_Tags ?ds))" by (rule tags)
  qed
qed

text \<open>\<open>Item\<close> and \<open>Order\<close> registered under \<open>v1\<close>: the merged document has both tags,
  the paths of both and the definition of \<open>Order\<close>.\<close>

lemma merged_version_group_shop:
  "registered shop_generator
   \<and> iteration_order (docs shop_generator) [''items_v1'', ''orders_v1'']
   \<and> (case GetAllSwagger shop_generator [''items_v1'', ''orders_v1''] ''v1'' of
         None \<Rightarrow> False
       | Some merged \<Rightarrow>
           map Tag_Name (Swagger_Tags merged) = [''Item'', ''Order'']
           \<and> Swagger_Paths merged ''/orders/{id}'' \<noteq> None
           \<and> Swagger_Paths merged ''/items'' \<noteq> None
           \<and> Swagger_Definitions merged ''Order'' = Some (generateSchema Order_type))"
proof -
  let ?order = "[''items_v1'', ''orders_v1'']"
  from shop_docs obtain items orders where i: "docs shop_generator ''items_v1'' = Some items"
    and o: "docs shop_generator ''orders_v1'' = Some orders"
    and ti: "map Tag_Name (Swagger_Tags items) = [''Item'']"
    and to: "map Tag_Name (Swagger_Tags orders) = [''Order'']"
    and po: "Swagger_Paths orders ''/orders/{id}'' \<noteq> None"
    and pi: "Swagger_Paths items ''/items'' \<noteq> None"
    and dord: "Swagger_Definitions orders ''Order'' = Some (generateSchema Order_type)"
    and di: "Swagger_Definitions items ''Order'' = None"
    by auto
  from names_single[OF ti] obtain a where a: "Swagger_Tags items = [a]" "Tag_Name a = ''Item''" by blast
  from names_single[OF to] obtain b where b: "Swagger_Tags orders = [b]" "Tag_Name b = ''Order''" by blast
  have grp: "version_group shop_generator ?order ''v1'' = [items, orders]"
    by (simp add: version_group_def i o version_of_keys)
  then have ne: "version_group shop_generator ?order ''v1'' \<noteq> []" by simp
  from merged_version_group[OF registered_shop shop_order ne]
  obtain merged where g: "GetAllSwagger shop_generator ?order ''v1'' = Some merged"
    and paths: "\<forall>path. (Swagger_Paths merged path \<noteq> None)
           = (\<exists>swagger\<in>set [items, orders]. Swagger_Paths swagger path \<noteq> None)"
    and kept: "\<forall>swagger name schema.
           swagger \<in> set [items, orders]
           \<and> Swagger_Definitions swagger name = Some schema
           \<and> (\<forall>other\<in>set [items, orders]. other = swagger \<or> Swagger_Definitions other name = None)
           \<longrightarrow> Swagger_Definitions merged name = Some schema"
    and tags: "Swagger_Tags merged = first_by_name {} (concat (map Swagger_Tags [items, orders]))"
    unfolding grp by blast
  from tags have "map Tag_Name (Swagger_Tags merged) = [''Item'', ''Order'']"
    by (simp add: a b)
  moreover from paths po have "Swagger_Paths merged ''/orders/{id}'' \<noteq> None" by simp
  moreover from paths pi have "Swagger_Paths merged ''/items'' \<noteq> None" by simp
  moreover from kept[rule_format, of orders "''Order''" "generateSchema Order_type"] dord di
  have "Swagger_Definitions merged ''Order'' = Some (generateSchema Order_type)" by simp
  ultimately show ?thesis using g registered_shop shop_order by simp
qed

lemma registered_key:
  "registered g \<Longrightarrow> docs g path = Some swagger \<Longrightarrow>
     \<exists>routePath. path = routePath @ ''_'' @ Info_Version (Swagger_Info swagger)"
proof (induction arbitrary: path swagger rule: registered.induct)
  case registered_new
  then show ?case by (simp add: NewGenerator_def)
next
  case (registered_entity g entityType basePath routePath controller version order)
  then show ?case
    by (auto simp: RegisterEntityWithVersion_def Let_def split: if_splits)
qed

text \<open>The version a document was registered under is the one in its \<open>info\<close>. When no
  registered version has an underscore, the documents filed under a version are the
  documents registered under it.\<close>

lemma version_group_registered:
  assumes "registered g" and "iteration_order (docs g) order"
    and "\<forall>path swagger. docs g path = Some swagger
           \<longrightarrow> CHR ''_'' \<notin> set (Info_Version (Swagger_Info swagger))"
  shows "set (version_group g order version)
      = {swagger. \<exists>path. docs g path = Some swagger \<and> Info_Version (Swagger_Info swagger) = version}"
proof -
  have "version_of path = Some (Info_Version (Swagger_Info swagger))"
    if "docs g path = Some swagger" for path swagger
  proof -
    from registered_key[OF assms(1) that] obtain routePath
      where "path = routePath @ ''_'' @ Info_Version (Swagger_Info swagger)" by blast
    moreover from assms(3) that have "CHR ''_'' \<notin> set (Info_Version (Swagger_Info swagger))" by blast
    ultimately show ?thesis
      using version_of_registration_key[of "Info_Version (Swagger_Info swagger)" routePath] by simp
  qed
  then show ?thesis unfolding version_group_set[OF assms(2)] by auto
qed

lemma beta_docs:
  "\<exists>users. docs beta_generator ''users_v1_beta'' = Some users
     \<and> Info_Version (Swagger_Info users) = ''v1_beta''
     \<and> Swagger_Definitions users ''User'' = Some (generateSchema User1_type)"
  by (simp add: beta_generator_def RegisterEntityWithVersion_def Let_def NewGenerator_def
      collect_definitions_def User1_type_def)

lemma candidate_docs:
  "\<exists>users members. docs candidate_generator ''users_v1'' = Some users
     \<and> docs candidate_generator ''members_rc_v1'' = Some members
     \<and> Info_Version (Swagger_Info users) = ''v1''
     \<and> Info_Version (Swagger_Info members) = ''rc_v1''
     \<and> Swagger_Definitions users ''User'' = Some (generateSchema User1_type)
     \<and> Swagger_Definitions members ''User'' = Some (generateSchema User2_type)"
  by (simp add: candidate_generator_def RegisterEntityWithVersion_def Let_def NewGenerator_def
      collect_definitions_def User1_type_def User2_type_def)

lemma beta_order: "iteration_order (docs beta_generator) [''users_v1_beta'']"
  by (auto simp: iteration_order_def beta_generator_def dom_register NewGenerator_def)

lemma candidate_order: "iteration_order (docs candidate_generator) [''members_rc_v1'', ''users_v1'']"
  by (auto simp: iteration_order_def candidate_generator_def dom_register NewGenerator_def)

lemma version_of_underscore_keys:
  "version_of ''users_v1_beta'' = Some ''beta''" "version_of ''members_rc_v1'' = Some ''v1''"
  by (simp_all add: version_of_def)

lemma User_schemas_differ: "generateSchema User1_type \<noteq> generateSchema User2_type"
proof
  assume "generateSchema User1_type = generateSchema User2_type"
  then have "Schema_Properties (generateSchema User1_type) ''Name''
      = Schema_Properties (generateSchema User2_type) ''Name''" by simp
  then show False
    by (simp add: User1_type_def User2_type_def resolved_name_def Tag_Get_def)
qed

text \<open>
  Claim C4 says that the merged-by-version document of a version merges the registered
  documents that share the version: all their paths, their definitions by first writer,
  their tags without a second tag of one name. \<^verbatim>\<open>GetAllSwagger\<close> takes a document's
  version from its key, the part after the last underscore, where the key was built from
  the route path, an underscore and the version. For a version that has an underscore
  this is not the version: an entity registered under \<^verbatim>\<open>v1_beta\<close> has no merged document
  of \<^verbatim>\<open>v1_beta\<close> and is merged under \<open>beta\<close>; an entity registered under \<^verbatim>\<open>rc_v1\<close> is
  merged into the document of \<open>v1\<close>, where its definition of \<open>User\<close>, visited first,
  takes the place of the one of the entity registered under \<open>v1\<close>.
\<close>

theorem GetAllSwagger_files_by_last_underscore:
  "iteration_order (docs beta_generator) [''users_v1_beta'']
   \<and> map_option (\<lambda>swagger. Info_Version (Swagger_Info swagger)) (docs beta_generator ''users_v1_beta'')
       = Some ''v1_beta''
   \<and> GetAllSwagger beta_generator [''users_v1_beta''] ''v1_beta'' = None
   \<and> map_option (\<lambda>merged. Swagger_Definitions merged ''User'')
        (GetAllSwagger beta_generator [''users_v1_beta''] ''beta'')
       = Some (Some (generateSchema User1_type))
   \<and> iteration_order (docs candidate_generator) [''members_rc_v1'', ''users_v1'']
   \<and> map_option (\<lambda>swagger. Info_Version (Swagger_Info swagger)) (docs candidate_generator ''members_rc_v1'')
       = Some ''rc_v1''
   \<and> map_option (\<lambda>swagger. Swagger_Definitions swagger ''User'') (docs candidate_generator ''users_v1'')
       = Some (Some (generateSchema User1_type))
   \<and> GetAllSwagger candidate_generator [''members_rc_v1'', ''users_v1''] ''rc_v1'' = None
   \<and> map_option (\<lambda>merged. Swagger_Definitions merged ''User'')
        (GetAllSwagger candidate_generator [''members_rc_v1'', ''users_v1''] ''v1'')
       = Some (Some (generateSchema User2_type))
   \<and> generateSchema User1_type \<noteq> generateSchema User2_type"
proof -
  from beta_docs obtain b where b: "docs beta_generator ''users_v1_beta'' = Some b"
    and bv: "Info_Version (Swagger_Info b) = ''v1_beta''"
    and bd: "Swagger_Definitions b ''User'' = Some (generateSchema User1_type)"
    by auto
  from candidate_docs obtain users members where u: "docs candidate_generator ''users_v1'' = Some users"
    and m: "docs candidate_generator ''members_rc_v1'' = Some members"
    and mv: "Info_Version (Swagger_Info members) = ''rc_v1''"
    and du: "Swagger_Definitions users ''User'' = Some (generateSchema User1_type)"
    and dm: "Swagger_Definitions members ''User'' = Some (generateSchema User2_type)"
    by auto
  have b1: "version_group beta_generator [''users_v1_beta''] ''v1_beta'' = []"
    by (simp add: version_group_def b version_of_underscore_keys)
  have b2: "version_group beta_generator [''users_v1_beta''] ''beta'' = [b]"
    by (simp add: version_group_def b version_of_underscore_keys)
  have c1: "version_group candidate_generator [''members_rc_v1'', ''users_v1''] ''rc_v1'' = []"
    by (simp add: version_group_def u m version_of_underscore_keys version_of_keys)
  have c2: "version_group candidate_generator [''members_rc_v1'', ''users_v1''] ''v1'' = [members, users]"
    by (simp add: version_group_def u m version_of_underscore_keys version_of_keys)
  have "GetAllSwagger beta_generator [''users_v1_beta''] ''v1_beta'' = None"
    by (simp add: GetAllSwagger_group b1)
  moreover have "Swagger_Definitions (foldl merge_version_doc (new_version_doc ''beta'') [b]) ''User''
      = Some (generateSchema User1_type)"
    unfolding merged_definition by (simp add: first_writer_of_def bd)
  then have "map_option (\<lambda>merged. Swagger_Definitions merged ''User'')
        (GetAllSwagger beta_generator [''users_v1_beta''] ''beta'') = Some (Some (generateSchema User1_type))"
    unfolding GetAllSwagger_group b2 by simp
  moreover have "GetAllSwagger candidate_generator [''members_rc_v1'', ''users_v1''] ''rc_v1'' = None"
    by (simp add: GetAllSwagger_group c1)
  moreover have "Swagger_Definitions
        (foldl merge_version_doc (new_version_doc ''v1'') [members, users]) ''User''
      = Some (generateSchema User2_type)"
    unfolding merged_definition by (simp add: first_writer_of_def dm)
  then have "map_option (\<lambda>merged. Swagger_Definitions merged ''User'')
        (GetAllSwagger candidate_generator [''members_rc_v1'', ''users_v1''] ''v1'')
       = Some (Some (generateSchema User2_type))"
    unfolding GetAllSwagger_group c2 by simp
  ultimately show ?thesis
    using beta_order candidate_order b bv u m mv du User_schemas_differ by simp
qed

lemma all_docs_map:
  "set order \<subseteq> dom (docs g) \<Longrightarrow> all_docs g order = map (\<lambda>path. the (docs g path)) order"
  by (induction order) (auto simp: all_docs_def)

lemma all_docs_set:
  "iteration_order (docs g) order \<Longrightarrow> set (all_docs g order) = {swagger. \<exists>path. docs g path = Some swagger}"
  by (auto simp: all_docs_def iteration_order_def split: option.splits)

lemma all_docs_mset:
  assumes "iteration_order (docs g) order1" and "iteration_order (docs g) order2"
  shows "mset (all_docs g order1) = mset (all_docs g order2)"
proof -
  from assms have "mset order1 = mset order2"
    by (simp add: iteration_order_def set_eq_iff_mset_eq_distinct[symmetric])
  moreover from assms have "set order1 \<subseteq> dom (docs g)" "set order2 \<subseteq> dom (docs g)"
    by (simp_all add: iteration_order_def)
  ultimately show ?thesis by (simp add: all_docs_map)
qed

lemma version_group_all:
  "\<forall>path\<in>dom (docs g). version_of path = Some version \<Longrightarrow>
     version_group g order version = all_docs g order"
  unfolding version_group_def all_docs_def
  by (intro arg_cong[where f = concat] map_cong refl) (auto split: option.splits)

lemma writers_alike:
  assumes "\<forall>x\<in>set ds. \<forall>y\<in>set ds. \<forall>v w. table x key = Some v \<and> table y key = Some w \<longrightarrow> v = w"
    and "set es = set ds"
  shows "first_writer_of table ds key = first_writer_of table es key"
proof (cases "first_writer_of table ds key")
  case None
  then have "\<not> (\<exists>d\<in>set ds. table d key \<noteq> None)" using first_writer_of_defined[of table ds key] by simp
  with assms(2) have "\<not> (\<exists>d\<in>set es. table d key \<noteq> None)" by simp
  then have "first_writer_of table es key = None" using first_writer_of_defined[of table es key] by simp
  with None show ?thesis by simp
next
  case (Some v)
  then obtain x where x: "find (\<lambda>d. table d key \<noteq> None) ds = Some x" "table x key = Some v"
    by (auto simp: first_writer_of_def split: option.splits)
  from Some have "\<exists>d\<in>set ds. table d key \<noteq> None" using first_writer_of_defined[of table ds key] by simp
  with assms(2) have "first_writer_of table es key \<noteq> None" using first_writer_of_defined[of table es key] by simp
  then obtain y w where y: "find (\<lambda>d. table d key \<noteq> None) es = Some y" "table y key = Some w"
    "first_writer_of table es key = Some w"
    by (auto simp: first_writer_of_def split: option.splits)
  from find_Some_holds[OF x(1)] find_Some_holds[OF y(1)] assms x(2) y(2) have "v = w" by blast
  with Some y(3) show ?thesis by simp
qed

lemma last_writers_alike:
  assumes "\<forall>x\<in>set ds. \<forall>y\<in>set ds. \<forall>v w. table x key = Some v \<and> table y key = Some w \<longrightarrow> v = w"
    and "set es = set ds"
  shows "last_writer_of table ds key = last_writer_of table es key"
proof -
  from assms have es: "\<forall>x\<in>set es. \<forall>y\<in>set es. \<forall>v w. table x key = Some v \<and> table y key = Some w \<longrightarrow> v = w"
    by simp
  have "last_writer_of table ds key = first_writer_of table ds key"
    by (rule writers_agree[of ds table key, OF assms(1), symmetric])
  also have "\<dots> = first_writer_of table es key" by (rule writers_alike[of ds table key, OF assms])
  also have "\<dots> = last_writer_of table es key" by (rule writers_agree[of es table key, OF es])
  finally show ?thesis .
qed

lemma concat_mset:
  assumes "mset ds = mset es"
  shows "mset (concat (map f ds)) = mset (concat (map f es))"
proof -
  have "mset (concat (map f xs)) = \<Sum>\<^sub># (image_mset (\<lambda>x. mset (f x)) (mset xs))" for xs
    by (induction xs) simp_all
  with assms show ?thesis by simp
qed

lemma all_docs_nonempty:
  "iteration_order (docs g) order \<Longrightarrow> docs g path = Some swagger \<Longrightarrow> all_docs g order \<noteq> []"
  using all_docs_set[of g order] by (auto simp del: set_empty simp: set_empty[symmetric])

lemma full_merge_path:
  "Swagger_Paths (mergeSwaggers g order) path = last_writer_of Swagger_Paths (all_docs g order) path"
  by (simp add: mergeSwaggers_def mergeSwaggers_paths last_writer last_writer_of_def)

lemma full_merge_definition:
  "Swagger_Definitions (mergeSwaggers g order) name
     = last_writer_of Swagger_Definitions (all_docs g order) name"
  by (simp add: mergeSwaggers_def mergeSwaggers_definitions last_writer last_writer_of_def)

lemma full_merge_tags:
  "Swagger_Tags (mergeSwaggers g order) = concat (map Swagger_Tags (all_docs g order))"
  by (simp add: mergeSwaggers_def mergeSwaggers_tags)

lemma crossing_docs:
  "\<exists>a ab. docs crossing_generator ''a_v1'' = Some a \<and> docs crossing_generator ''a/b_v1'' = Some ab
     \<and> map Tag_Name (Swagger_Tags a) = [''User''] \<and> map Tag_Name (Swagger_Tags ab) = [''Order'']
     \<and> Get_Summary a ''/a/b'' = Some ''from a'' \<and> Get_Summary ab ''/a/b'' = Some ''from ab''"
  by (simp add: crossing_generator_def RegisterEntityWithVersion_def Let_def NewGenerator_def
      group_routes_def route_path_def path_item_def generateOperation_def Get_Summary_def
      User1_type_def Order_type_def)

lemma crossing_order:
  "iteration_order (docs crossing_generator) [''a_v1'', ''a/b_v1'']"
  "iteration_order (docs crossing_generator) [''a/b_v1'', ''a_v1'']"
  by (auto simp: iteration_order_def crossing_generator_def dom_register NewGenerator_def)

lemma shop_order_rev: "iteration_order (docs shop_generator) [''orders_v1'', ''items_v1'']"
  by (auto simp: iteration_order_def shop_generator_def item_generator_def dom_register NewGenerator_def)

lemma version_of_crossing_keys:
  "version_of ''a_v1'' = Some ''v1''" "version_of ''a/b_v1'' = Some ''v1''"
  by (simp_all add: version_of_def)

lemma shop_docs_apart:
  "\<exists>items orders. docs shop_generator ''items_v1'' = Some items \<and> docs shop_generator ''orders_v1'' = Some orders
     \<and> map Tag_Name (Swagger_Tags items) = [''Item''] \<and> map Tag_Name (Swagger_Tags orders) = [''Order'']
     \<and> Swagger_Paths orders ''/items'' = None
     \<and> Swagger_Definitions orders ''Order'' = Some (generateSchema Order_type)
     \<and> Swagger_Definitions items ''Order'' = None"
  apply (simp add: shop_generator_def item_generator_def RegisterEntityWithVersion_def Let_def
      NewGenerator_def group_order_routes group_item_routes collect_definitions_def)
  apply (simp add: Item_type_def Order_type_def order_routes_def item_routes_def collect_route_def
      collect_sample_def Request1_type_def Request2_type_def)
  done

lemma shop_dom: "dom (docs shop_generator) = {''items_v1'', ''orders_v1''}"
  by (auto simp: shop_generator_def item_generator_def dom_register NewGenerator_def)

text \<open>
  Claim C3 says that \<^verbatim>\<open>mergeSwaggers\<close> computes the same fold as the merged-by-version
  view: definitions by first writer, tags deduplicated by name, the result identical. Its
  loop assigns every definition and appends every tag. With two entity types called
  \<open>User\<close> registered under \<open>users\<close> and \<open>members\<close>, \<^verbatim>\<open>mergeSwaggers\<close> has two tags
  and the second type's schema, the merged view of \<open>v1\<close> one tag and the first type's
  schema. Each of the two functions has its own loop over \<^verbatim>\<open>g.docs\<close>, and the two loops
  need not visit the keys in the same order: with two registrations under \<open>v1\<close> that
  share no tag name and no definition name but meet in the path \<open>/a/b\<close>, one visit order
  for \<^verbatim>\<open>GetAllSwagger\<close> and the other for \<^verbatim>\<open>mergeSwaggers\<close> give the tags in different
  orders and different operations at \<open>/a/b\<close>.
\<close>

theorem mergeSwaggers_differs_counterexample:
  "length (Swagger_Tags (mergeSwaggers twin_generator [''users_v1'', ''members_v1''])) = 2
   \<and> (case GetAllSwagger twin_generator [''users_v1'', ''members_v1''] ''v1'' of
         None \<Rightarrow> 0
       | Some merged \<Rightarrow> length (Swagger_Tags merged)) = 1
   \<and> Swagger_Definitions (mergeSwaggers twin_generator [''users_v1'', ''members_v1'']) ''User''
       = Some (generateSchema User2_type)
   \<and> (case GetAllSwagger twin_generator [''users_v1'', ''members_v1''] ''v1'' of
         None \<Rightarrow> None
       | Some merged \<Rightarrow> Swagger_Definitions merged ''User'') = Some (generateSchema User1_type)
   \<and> Schema_Properties (generateSchema User1_type) ''Name'' \<noteq> None
   \<and> Schema_Properties (generateSchema User2_type) ''Name'' = None
   \<and> iteration_order (docs crossing_generator) [''a_v1'', ''a/b_v1'']
   \<and> iteration_order (docs crossing_generator) [''a/b_v1'', ''a_v1'']
   \<and> map Tag_Name (Swagger_Tags (mergeSwaggers crossing_generator [''a/b_v1'', ''a_v1'']))
       = [''Order'', ''User'']
   \<and> (case GetAllSwagger crossing_generator [''a_v1'', ''a/b_v1''] ''v1'' of
         None \<Rightarrow> []
       | Some merged \<Rightarrow> map Tag_Name (Swagger_Tags merged)) = [''User'', ''Order'']
   \<and> Get_Summary (mergeSwaggers crossing_generator [''a/b_v1'', ''a_v1'']) ''/a/b'' = Some ''from a''
   \<and> (case GetAllSwagger crossing_generator [''a_v1'', ''a/b_v1''] ''v1'' of
         None \<Rightarrow> None
       | Some merged \<Rightarrow> Get_Summary merged ''/a/b'') = Some ''from ab''"
proof -
  let ?order = "[''users_v1'', ''members_v1'']"
  from twin_docs obtain users members where u: "docs twin_generator ''users_v1'' = Some users"
    and m: "docs twin_generator ''members_v1'' = Some members"
    and tu: "map Tag_Name (Swagger_Tags users) = [''User'']"
    and tm: "map Tag_Name (Swagger_Tags members) = [''User'']"
    and du: "Swagger_Definitions users ''User'' = Some (generateSchema User1_type)"
    and dm: "Swagger_Definitions members ''User'' = Some (generateSchema User2_type)"
    by auto
  from names_single[OF tu] obtain a where a: "Swagger_Tags users = [a]" "Tag_Name a = ''User''" by blast
  from names_single[OF tm] obtain b where b: "Swagger_Tags members = [b]" "Tag_Name b = ''User''" by blast
  have all: "all_docs twin_generator ?order = [users, members]"
    by (simp add: all_docs_def u m)
  have grp: "version_group twin_generator ?order ''v1'' = [users, members]"
    by (simp add: version_group_def u m version_of_keys)
  have "Swagger_Tags (mergeSwaggers twin_generator ?order) = [a, b]"
    unfolding mergeSwaggers_def mergeSwaggers_tags all by (simp add: a b)
  then have c1: "length (Swagger_Tags (mergeSwaggers twin_generator ?order)) = 2" by simp
  have g: "GetAllSwagger twin_generator ?order ''v1''
      = Some (foldl merge_version_doc (new_version_doc ''v1'') [users, members])"
    by (simp add: GetAllSwagger_group grp)
  have "Swagger_Tags (foldl merge_version_doc (new_version_doc ''v1'') [users, members]) = [a]"
    by (simp add: merge_version_tags a b) (simp add: new_version_doc_def)
  with g have c2: "(case GetAllSwagger twin_generator ?order ''v1'' of
         None \<Rightarrow> 0 | Some merged \<Rightarrow> length (Swagger_Tags merged)) = 1" by simp
  have c3: "Swagger_Definitions (mergeSwaggers twin_generator ?order) ''User'' = Some (generateSchema User2_type)"
    unfolding mergeSwaggers_def mergeSwaggers_definitions all by (simp add: map_add_def dm)
  have "Swagger_Definitions (foldl merge_version_doc (new_version_doc ''v1'') [users, members]) ''User''
      = Some (generateSchema User1_type)"
    unfolding merged_definition by (simp add: first_writer_of_def du)
  with g have c4: "(case GetAllSwagger twin_generator ?order ''v1'' of
         None \<Rightarrow> None
       | Some merged \<Rightarrow> Swagger_Definitions merged ''User'') = Some (generateSchema User1_type)" by simp
  have c5: "Schema_Properties (generateSchema User1_type) ''Name'' \<noteq> None"
    "Schema_Properties (generateSchema User2_type) ''Name'' = None"
    by (simp_all add: User1_type_def User2_type_def resolved_name_def Tag_Get_def)
  let ?fwd = "[''a_v1'', ''a/b_v1'']" and ?bwd = "[''a/b_v1'', ''a_v1'']"
  from crossing_docs obtain x y where x: "docs crossing_generator ''a_v1'' = Some x"
    and y: "docs crossing_generator ''a/b_v1'' = Some y"
    and tx: "map Tag_Name (Swagger_Tags x) = [''User'']"
    and ty: "map Tag_Name (Swagger_Tags y) = [''Order'']"
    and sx: "Get_Summary x ''/a/b'' = Some ''from a''"
    and sy: "Get_Summary y ''/a/b'' = Some ''from ab''"
    by auto
  from names_single[OF tx] obtain tagx where tagx: "Swagger_Tags x = [tagx]" "Tag_Name tagx = ''User''" by blast
  from names_single[OF ty] obtain tagy where tagy: "Swagger_Tags y = [tagy]" "Tag_Name tagy = ''Order''" by blast
  have bwd: "all_docs crossing_generator ?bwd = [y, x]" by (simp add: all_docs_def x y)
  have fwd: "version_group crossing_generator ?fwd ''v1'' = [x, y]"
    by (simp add: version_group_def x y version_of_crossing_keys)
  have gc: "GetAllSwagger crossing_generator ?fwd ''v1''
      = Some (foldl merge_version_doc (new_version_doc ''v1'') [x, y])"
    by (simp add: GetAllSwagger_group fwd)
  have c6: "map Tag_Name (Swagger_Tags (mergeSwaggers crossing_generator ?bwd)) = [''Order'', ''User'']"
    unfolding full_merge_tags bwd by (simp add: tagx tagy)
  have "Swagger_Tags (foldl merge_version_doc (new_version_doc ''v1'') [x, y]) = [tagx, tagy]"
    by (simp add: merge_version_tags tagx tagy) (simp add: new_version_doc_def)
  with gc have c7: "(case GetAllSwagger crossing_generator ?fwd ''v1'' of
         None \<Rightarrow> []
       | Some merged \<Rightarrow> map Tag_Name (Swagger_Tags merged)) = [''User'', ''Order'']"
    by (simp add: tagx tagy)
  from sx sy have px: "Swagger_Paths x ''/a/b'' \<noteq> None" and py: "Swagger_Paths y ''/a/b'' \<noteq> None"
    by (auto simp: Get_Summary_def split: option.splits)
  have "Swagger_Paths (mergeSwaggers crossing_generator ?bwd) ''/a/b'' = Swagger_Paths x ''/a/b''"
    unfolding full_merge_path bwd using px by (simp add: last_writer_of_def)
  with sx have c8: "Get_Summary (mergeSwaggers crossing_generator ?bwd) ''/a/b'' = Some ''from a''"
    by (simp add: Get_Summary_def)
  have "Swagger_Paths (foldl merge_version_doc (new_version_doc ''v1'') [x, y]) ''/a/b''
      = Swagger_Paths y ''/a/b''"
    unfolding merged_path using py by (simp add: last_writer_of_def)
  with sy gc have c9: "(case GetAllSwagger crossing_generator ?fwd ''v1'' of
         None \<Rightarrow> None
       | Some merged \<Rightarrow> Get_Summary merged ''/a/b'') = Some ''from ab''"
    by (simp add: Get_Summary_def)
  from c1 c2 c3 c4 c5 c6 c7 c8 c9 crossing_order show ?thesis by blast
qed

text \<open>
  Claim C3 as amended: \<^verbatim>\<open>mergeSwaggers\<close> folds all stored documents whatever their
  version; its paths and its definitions are unions in which a key shared by several
  documents has the value of the document its loop visits last, and its tags are all the
  documents' tags in the order of the visit, with no deduplication. \<open>order1\<close> is the order
  in which the loop of \<^verbatim>\<open>GetAllSwagger\<close> visits the keys and \<open>order2\<close> the order of the
  loop of \<^verbatim>\<open>mergeSwaggers\<close>. When a document is stored and the part after the last
  underscore of every stored key is one and the same version, so that \<^verbatim>\<open>GetAllSwagger\<close>
  files every document under that version, the merged view of that version and the full
  merge have the same paths and the same definition names; they have the same path item at a path, and the same schema under a definition
  name, that all documents having it have alike; and they have the same tags up to their
  order if no two tags have the same name. When both loops visit the keys in the same
  order, all paths have the same path items, and the tag lists are equal if no two tags
  have the same name.
\<close>

theorem mergeSwaggers_overwrites_and_appends:
  "(\<forall>path. Swagger_Paths (mergeSwaggers g order2) path
       = last_writer_of Swagger_Paths (all_docs g order2) path)
   \<and> (\<forall>name. Swagger_Definitions (mergeSwaggers g order2) name
         = last_writer_of Swagger_Definitions (all_docs g order2) name)
   \<and> Swagger_Tags (mergeSwaggers g order2) = concat (map Swagger_Tags (all_docs g order2))
   \<and> (iteration_order (docs g) order1 \<and> iteration_order (docs g) order2
        \<and> (\<exists>path swagger. docs g path = Some swagger)
        \<and> (\<forall>path\<in>dom (docs g). version_of path = Some version) \<longrightarrow>
        (\<exists>merged. GetAllSwagger g order1 version = Some merged
           \<and> dom (Swagger_Paths merged) = dom (Swagger_Paths (mergeSwaggers g order2))
           \<and> dom (Swagger_Definitions merged) = dom (Swagger_Definitions (mergeSwaggers g order2))
           \<and> (\<forall>path.
                 (\<forall>p q x y v w. docs g p = Some x \<and> docs g q = Some y
                     \<and> Swagger_Paths x path = Some v \<and> Swagger_Paths y path = Some w \<longrightarrow> v = w)
                 \<longrightarrow> Swagger_Paths merged path = Swagger_Paths (mergeSwaggers g order2) path)
           \<and> (\<forall>name.
                 (\<forall>p q x y v w. docs g p = Some x \<and> docs g q = Some y
                     \<and> Swagger_Definitions x name = Some v \<and> Swagger_Definitions y name = Some w
                     \<longrightarrow> v = w)
                 \<longrightarrow> Swagger_Definitions merged name
                       = Swagger_Definitions (mergeSwaggers g order2) name)
           \<and> (distinct (map Tag_Name (concat (map Swagger_Tags (all_docs g order1))))
                \<longrightarrow> mset (Swagger_Tags merged) = mset (Swagger_Tags (mergeSwaggers g order2)))
           \<and> (order1 = order2 \<longrightarrow>
                Swagger_Paths merged = Swagger_Paths (mergeSwaggers g order2)
                \<and> (distinct (map Tag_Name (concat (map Swagger_Tags (all_docs g order1))))
                     \<longrightarrow> Swagger_Tags merged = Swagger_Tags (mergeSwaggers g order2)))))"
proof (intro conjI allI impI)
  show "Swagger_Paths (mergeSwaggers g order2) path = last_writer_of Swagger_Paths (all_docs g order2) path"
    for path by (rule full_merge_path)
  show "Swagger_Definitions (mergeSwaggers g order2) name
      = last_writer_of Swagger_Definitions (all_docs g order2) name" for name
    by (rule full_merge_definition)
  show "Swagger_Tags (mergeSwaggers g order2) = concat (map Swagger_Tags (all_docs g order2))"
    by (rule full_merge_tags)
  assume h: "iteration_order (docs g) order1 \<and> iteration_order (docs g) order2
        \<and> (\<exists>path swagger. docs g path = Some swagger)
        \<and> (\<forall>path\<in>dom (docs g). version_of path = Some version)"
  let ?ds = "all_docs g order1" and ?es = "all_docs g order2"
  let ?m = "foldl merge_version_doc (new_version_doc version) ?ds"
  let ?f = "mergeSwaggers g order2"
  from h have o1: "iteration_order (docs g) order1" and o2: "iteration_order (docs g) order2" by simp_all
  from h have grp: "version_group g order1 version = ?ds" by (simp add: version_group_all)
  from h obtain path swagger where "docs g path = Some swagger" by blast
  from all_docs_nonempty[OF o1 this] have ne: "?ds \<noteq> []" .
  from ne have m: "GetAllSwagger g order1 version = Some ?m"
    by (cases ?ds) (simp_all add: GetAllSwagger_group grp)
  have sets: "set ?es = set ?ds" by (simp add: all_docs_set[OF o1] all_docs_set[OF o2])
  have stored: "(\<forall>x\<in>set ?ds. \<forall>y\<in>set ?ds. \<forall>v w. table x key = Some v \<and> table y key = Some w \<longrightarrow> v = w)"
    if "\<forall>p q x y v w. docs g p = Some x \<and> docs g q = Some y
          \<and> table x key = Some v \<and> table y key = Some w \<longrightarrow> v = w"
    for table :: "Swagger \<Rightarrow> string \<Rightarrow> 'v option" and key
    unfolding all_docs_set[OF o1] using that by blast
  have alike: "first_writer_of table ?ds key = last_writer_of table ?es key
      \<and> last_writer_of table ?ds key = last_writer_of table ?es key"
    if "\<forall>p q x y v w. docs g p = Some x \<and> docs g q = Some y
          \<and> table x key = Some v \<and> table y key = Some w \<longrightarrow> v = w"
    for table :: "Swagger \<Rightarrow> string \<Rightarrow> 'v option" and key
    using writers_agree[of ?ds table key, OF stored[of table key, OF that]]
      last_writers_alike[of ?ds table key, OF stored[of table key, OF that] sets] by simp
  have tags: "Swagger_Tags ?m = concat (map Swagger_Tags ?ds)"
    if a: "distinct (map Tag_Name (concat (map Swagger_Tags ?ds)))"
  proof -
    from distinct_concat_each[OF a] have each: "\<forall>d\<in>set ?ds. distinct (map Tag_Name (Swagger_Tags d))"
      by simp
    have "Swagger_Tags ?m = first_by_name {} (concat (map Swagger_Tags ?ds))"
      by (rule merged_tags[OF each]) (simp add: new_version_doc_def)
    also have "\<dots> = concat (map Swagger_Tags ?ds)"
      by (rule first_by_name_distinct[OF a]) simp
    finally show ?thesis .
  qed
  show "\<exists>merged. GetAllSwagger g order1 version = Some merged
           \<and> dom (Swagger_Paths merged) = dom (Swagger_Paths ?f)
           \<and> dom (Swagger_Definitions merged) = dom (Swagger_Definitions ?f)
           \<and> (\<forall>path.
                 (\<forall>p q x y v w. docs g p = Some x \<and> docs g q = Some y
                     \<and> Swagger_Paths x path = Some v \<and> Swagger_Paths y path = Some w \<longrightarrow> v = w)
                 \<longrightarrow> Swagger_Paths merged path = Swagger_Paths ?f path)
           \<and> (\<forall>name.
                 (\<forall>p q x y v w. docs g p = Some x \<and> docs g q = Some y
                     \<and> Swagger_Definitions x name = Some v \<and> Swagger_Definitions y name = Some w
                     \<longrightarrow> v = w)
                 \<longrightarrow> Swagger_Definitions merged name = Swagger_Definitions ?f name)
           \<and> (distinct (map Tag_Name (concat (map Swagger_Tags ?ds)))
                \<longrightarrow> mset (Swagger_Tags merged) = mset (Swagger_Tags ?f))
           \<and> (order1 = order2 \<longrightarrow>
                Swagger_Paths merged = Swagger_Paths ?f
                \<and> (distinct (map Tag_Name (concat (map Swagger_Tags ?ds)))
                     \<longrightarrow> Swagger_Tags merged = Swagger_Tags ?f))"
  proof (intro exI[of _ ?m] conjI impI allI)
    show "GetAllSwagger g order1 version = Some ?m" by (rule m)
    show "dom (Swagger_Paths ?m) = dom (Swagger_Paths ?f)"
      using last_writer_of_defined[of Swagger_Paths ?ds] last_writer_of_defined[of Swagger_Paths ?es]
      by (auto simp: dom_def merged_path full_merge_path sets)
    show "dom (Swagger_Definitions ?m) = dom (Swagger_Definitions ?f)"
      using first_writer_of_defined[of Swagger_Definitions ?ds]
        last_writer_of_defined[of Swagger_Definitions ?es]
      by (auto simp: dom_def merged_definition full_merge_definition sets)
    show "Swagger_Paths ?m path = Swagger_Paths ?f path"
      if "\<forall>p q x y v w. docs g p = Some x \<and> docs g q = Some y
            \<and> Swagger_Paths x path = Some v \<and> Swagger_Paths y path = Some w \<longrightarrow> v = w" for path
      using alike[of Swagger_Paths path, OF that] by (simp only: merged_path full_merge_path)
    show "Swagger_Definitions ?m name = Swagger_Definitions ?f name"
      if "\<forall>p q x y v w. docs g p = Some x \<and> docs g q = Some y
            \<and> Swagger_Definitions x name = Some v \<and> Swagger_Definitions y name = Some w
            \<longrightarrow> v = w" for name
      using alike[of Swagger_Definitions name, OF that]
      by (simp only: merged_definition full_merge_definition)
    show "mset (Swagger_Tags ?m) = mset (Swagger_Tags ?f)"
      if a: "distinct (map Tag_Name (concat (map Swagger_Tags ?ds)))"
    proof -
      have "mset (Swagger_Tags ?m) = mset (concat (map Swagger_Tags ?ds))"
        by (simp only: tags[OF a])
      also have "\<dots> = mset (concat (map Swagger_Tags ?es))"
        by (rule concat_mset[OF all_docs_mset[OF o1 o2]])
      finally show ?thesis by (simp only: full_merge_tags)
    qed
    show "Swagger_Paths ?m = Swagger_Paths ?f" if "order1 = order2"
      by (rule ext) (simp only: merged_path full_merge_path that)
    show "Swagger_Tags ?m = Swagger_Tags ?f"
      if "order1 = order2" and a: "distinct (map Tag_Name (concat (map Swagger_Tags ?ds)))"
      using tags[OF a] by (simp add: full_merge_tags that(1)[symmetric])
  qed
qed

text \<open>\<open>Item\<close> and \<open>Order\<close> under \<open>v1\<close> share no tag name, no path and not the
  definition named \<open>Order\<close>: with the keys visited in opposite orders, both merges have
  the same tags up to order, the same definition of \<open>Order\<close> and the same item at
  \<open>/items\<close>.\<close>

theorem mergeSwaggers_overwrites_and_appends_witness:
  "iteration_order (docs shop_generator) [''items_v1'', ''orders_v1'']
   \<and> iteration_order (docs shop_generator) [''orders_v1'', ''items_v1'']
   \<and> (case GetAllSwagger shop_generator [''items_v1'', ''orders_v1''] ''v1'' of
         None \<Rightarrow> False
       | Some merged \<Rightarrow>
           mset (Swagger_Tags merged)
             = mset (Swagger_Tags (mergeSwaggers shop_generator [''orders_v1'', ''items_v1'']))
           \<and> Swagger_Definitions merged ''Order''
             = Swagger_Definitions (mergeSwaggers shop_generator [''orders_v1'', ''items_v1'']) ''Order''
           \<and> Swagger_Paths merged ''/items''
             = Swagger_Paths (mergeSwaggers shop_generator [''orders_v1'', ''items_v1'']) ''/items'')
   \<and> map Tag_Name (Swagger_Tags (mergeSwaggers shop_generator [''orders_v1'', ''items_v1'']))
       = [''Order'', ''Item'']
   \<and> Swagger_Definitions (mergeSwaggers shop_generator [''orders_v1'', ''items_v1'']) ''Order''
       = Some (generateSchema Order_type)"
proof -
  let ?order1 = "[''items_v1'', ''orders_v1'']" and ?order2 = "[''orders_v1'', ''items_v1'']"
  let ?f = "mergeSwaggers shop_generator ?order2"
  from shop_docs_apart obtain items orders where i: "docs shop_generator ''items_v1'' = Some items"
    and o: "docs shop_generator ''orders_v1'' = Some orders"
    and ti: "map Tag_Name (Swagger_Tags items) = [''Item'']"
    and to: "map Tag_Name (Swagger_Tags orders) = [''Order'']"
    and po: "Swagger_Paths orders ''/items'' = None"
    and dord: "Swagger_Definitions orders ''Order'' = Some (generateSchema Order_type)"
    and di: "Swagger_Definitions items ''Order'' = None"
    by auto
  have stored: "x = items \<or> x = orders" if "docs shop_generator p = Some x" for p x
  proof -
    from that have "p \<in> dom (docs shop_generator)" by auto
    with that i o show ?thesis by (auto simp: shop_dom)
  qed
  have all1: "all_docs shop_generator ?order1 = [items, orders]" by (simp add: all_docs_def i o)
  have all2: "all_docs shop_generator ?order2 = [orders, items]" by (simp add: all_docs_def i o)
  have keys: "\<forall>path\<in>dom (docs shop_generator). version_of path = Some ''v1''"
    by (simp add: shop_dom version_of_keys)
  have dist: "distinct (map Tag_Name (concat (map Swagger_Tags (all_docs shop_generator ?order1))))"
    by (simp add: all1 ti to)
  have alikeD: "\<forall>p q x y v w. docs shop_generator p = Some x \<and> docs shop_generator q = Some y
      \<and> Swagger_Definitions x ''Order'' = Some v \<and> Swagger_Definitions y ''Order'' = Some w \<longrightarrow> v = w"
    using di by (auto dest!: stored)
  have alikeP: "\<forall>p q x y v w. docs shop_generator p = Some x \<and> docs shop_generator q = Some y
      \<and> Swagger_Paths x ''/items'' = Some v \<and> Swagger_Paths y ''/items'' = Some w \<longrightarrow> v = w"
    using po by (auto dest!: stored)
  note T = mergeSwaggers_overwrites_and_appends[of shop_generator ?order2 ?order1 "''v1''"]
  from T have d: "Swagger_Definitions ?f ''Order'' = last_writer_of Swagger_Definitions (all_docs shop_generator ?order2) ''Order''"
    and t: "Swagger_Tags ?f = concat (map Swagger_Tags (all_docs shop_generator ?order2))"
    by blast+
  from T shop_order shop_order_rev i keys
  obtain merged where g: "GetAllSwagger shop_generator ?order1 ''v1'' = Some merged"
    and P: "\<forall>path.
                 (\<forall>p q x y v w. docs shop_generator p = Some x \<and> docs shop_generator q = Some y
                     \<and> Swagger_Paths x path = Some v \<and> Swagger_Paths y path = Some w \<longrightarrow> v = w)
                 \<longrightarrow> Swagger_Paths merged path = Swagger_Paths ?f path"
    and D: "\<forall>name.
                 (\<forall>p q x y v w. docs shop_generator p = Some x \<and> docs shop_generator q = Some y
                     \<and> Swagger_Definitions x name = Some v \<and> Swagger_Definitions y name = Some w
                     \<longrightarrow> v = w)
                 \<longrightarrow> Swagger_Definitions merged name = Swagger_Definitions ?f name"
    and G: "distinct (map Tag_Name (concat (map Swagger_Tags (all_docs shop_generator ?order1))))
                \<longrightarrow> mset (Swagger_Tags merged) = mset (Swagger_Tags ?f)"
    by blast
  from G dist have "mset (Swagger_Tags merged) = mset (Swagger_Tags ?f)" by simp
  moreover from D alikeD have "Swagger_Definitions merged ''Order'' = Swagger_Definitions ?f ''Order''"
    by blast
  moreover from P alikeP have "Swagger_Paths merged ''/items'' = Swagger_Paths ?f ''/items''"
    by blast
  moreover from t have "map Tag_Name (Swagger_Tags ?f) = [''Order'', ''Item'']"
    by (simp add: all2 ti to)
  moreover from d have "Swagger_Definitions ?f ''Order'' = Some (generateSchema Order_type)"
    by (simp add: all2 last_writer_of_def di dord)
  ultimately show ?thesis using g shop_order shop_order_rev by simp
qed

end
